theory Spec2Isabelle
  imports Main "HOL-Library.AList"
begin

text \<open>
  The field-set merger of the gateway, \<^verbatim>\<open>packages/apollo-gateway/src/FieldSet.ts\<close>,
  as functions on values and, for its assignments, on a store of objects; the two
  composition utilities that
  \<^verbatim>\<open>packages/apollo-federation/src/composition/__tests__/utils.test.ts\<close> tests, as
  their specification describes them; and what holds of them.
\<close>

section \<open>Selection nodes of a query document\<close>

text \<open>
  The gateway's \<^verbatim>\<open>FieldSet.ts\<close> works on the selection nodes of the GraphQL document
  model: a field (with an optional alias, here \<open>fieldAlias\<close>, a name, arguments,
  directives and an optional selection set), a fragment spread (a name and directives)
  and an inline fragment (an optional type condition, directives and a selection set
  that is always present). A
  \<^verbatim>\<open>NameNode\<close> is represented by its \<^verbatim>\<open>value\<close>, a \<^verbatim>\<open>SelectionSetNode\<close> by its
  \<^verbatim>\<open>selections\<close> array, and an absent property by \<open>None\<close>.
\<close>

datatype FieldNode =
  FieldNode (fieldAlias: "string option") (name: string) (arguments: "(string \<times> string) list")
    (directives: "string list") (selectionSet: "SelectionNode list option")
and SelectionNode =
    FIELD FieldNode
  | FRAGMENT_SPREAD string "string list"
  | INLINE_FRAGMENT "string option" "string list" "SelectionNode list"

text \<open>
  Two things can go wrong in the code below. \<open>TypeError\<close> is the exception JavaScript
  raises when a property of \<^verbatim>\<open>undefined\<close> is read. \<open>NotASelection\<close> marks the place
  where the second loop of \<^verbatim>\<open>mergeSelectionsSetsInternal\<close> would return the empty object
  \<^verbatim>\<open>{}\<close>, which is no selection node; lemma \<open>mergeLoop_lookup\<close> shows that this place
  is never reached.
\<close>

datatype error = TypeError | NotASelection

text \<open>\<^verbatim>\<open>node.selectionSet\<close>: \<^verbatim>\<open>undefined\<close> on a fragment spread.\<close>

fun selectionSetOf :: "SelectionNode \<Rightarrow> SelectionNode list option" where
  "selectionSetOf (FIELD fn) = selectionSet fn"
| "selectionSetOf (FRAGMENT_SPREAD n ds) = None"
| "selectionSetOf (INLINE_FRAGMENT tc ds sels) = Some sels"

text \<open>\<^verbatim>\<open>node.name?.value\<close>: \<^verbatim>\<open>undefined\<close> on an inline fragment, which has no name.\<close>

fun nameValue :: "SelectionNode \<Rightarrow> string option" where
  "nameValue (FIELD fn) = Some (name fn)"
| "nameValue (FRAGMENT_SPREAD n ds) = Some n"
| "nameValue (INLINE_FRAGMENT tc ds sels) = None"

text \<open>
  \<^verbatim>\<open>node.typeCondition.name.value\<close>: only an inline fragment has a type condition, and
  it is optional there; reading \<^verbatim>\<open>.name\<close> of an absent one throws.
\<close>

fun typeConditionNameValue :: "SelectionNode \<Rightarrow> error + string" where
  "typeConditionNameValue (INLINE_FRAGMENT (Some t) ds sels) = Inr t"
| "typeConditionNameValue (INLINE_FRAGMENT None ds sels) = Inl TypeError"
| "typeConditionNameValue (FIELD fn) = Inl TypeError"
| "typeConditionNameValue (FRAGMENT_SPREAD n ds) = Inl TypeError"

text \<open>
  Lines 168 and 178, \<^verbatim>\<open>node.name?.value || node.typeCondition.name.value\<close>: the name
  when there is one and it is not the empty string (which is falsy), else the name of the
  type condition.
\<close>

definition selectionKey :: "SelectionNode \<Rightarrow> error + string" where
  "selectionKey node =
     (case nameValue node of
        Some n \<Rightarrow> if n \<noteq> [] then Inr n else typeConditionNameValue node
      | None \<Rightarrow> typeConditionNameValue node)"

section \<open>The nested-selection merge\<close>

text \<open>
  The values of \<^verbatim>\<open>selectionMap\<close> (line 156). A JavaScript \<^verbatim>\<open>Map\<close> iterates in
  insertion order and \<^verbatim>\<open>set\<close> on a key that is present keeps its position, which is
  what \<open>AList.update\<close> does on an association list.
\<close>

record SelectionEntry =
  field :: "SelectionNode list"
  selections :: "SelectionNode list"

type_synonym SelectionMap = "(string \<times> SelectionEntry) list"

text \<open>
  One iteration of the first loop (lines 158 to 174) on the state \<^verbatim>\<open>scalars\<close>,
  \<^verbatim>\<open>selectionMap\<close>. A node without a selection set is pushed to \<^verbatim>\<open>scalars\<close> unless a
  node with the same \<^verbatim>\<open>name.value\<close> is there already. Any other node is filed under its
  key: a new entry starts as \<^verbatim>\<open>{field: [fieldNode], selections: []}\<close> and, like an
  entry that was found, then receives the node's selections and the node itself.
\<close>

definition mergeStep ::
  "SelectionNode \<Rightarrow> SelectionNode list \<times> SelectionMap \<Rightarrow>
     error + SelectionNode list \<times> SelectionMap" where
  "mergeStep fieldNode st =
     (case st of (scalars, selectionMap) \<Rightarrow>
       (case selectionSetOf fieldNode of
          None \<Rightarrow>
            Inr (if find (\<lambda>scalar. nameValue scalar = nameValue fieldNode) scalars = None
                 then scalars @ [fieldNode] else scalars, selectionMap)
        | Some sels \<Rightarrow>
            (case selectionKey fieldNode of
               Inl e \<Rightarrow> Inl e
             | Inr nm \<Rightarrow>
                 let entry = (case map_of selectionMap nm of
                                Some s \<Rightarrow> s
                              | None \<Rightarrow> \<lparr>field = [fieldNode], selections = []\<rparr>)
                 in Inr (scalars,
                      AList.update nm
                        \<lparr>field = field entry @ [fieldNode],
                         selections = selections entry @ sels\<rparr> selectionMap))))"

fun mergeLoop ::
  "SelectionNode list \<Rightarrow> SelectionNode list \<times> SelectionMap \<Rightarrow>
     error + SelectionNode list \<times> SelectionMap" where
  "mergeLoop [] st = Inr st"
| "mergeLoop (fieldNode # rest) st =
     (case mergeStep fieldNode st of Inl e \<Rightarrow> Inl e | Inr st' \<Rightarrow> mergeLoop rest st')"

text \<open>\<^verbatim>\<open>Array.prototype.map\<close> with a callback that may throw: the first exception ends it.\<close>

fun mapE :: "('a \<Rightarrow> error + 'b) \<Rightarrow> 'a list \<Rightarrow> error + 'b list" where
  "mapE f [] = Inr []"
| "mapE f (x # xs) =
     (case f x of
        Inl e \<Rightarrow> Inl e
      | Inr y \<Rightarrow> (case mapE f xs of Inl e \<Rightarrow> Inl e | Inr ys \<Rightarrow> Inr (y # ys)))"

lemma mapE_cong [fundef_cong]:
  "xs = ys \<Longrightarrow> (\<And>x. x \<in> set ys \<Longrightarrow> f x = g x) \<Longrightarrow> mapE f xs = mapE g ys"
  by (induction ys arbitrary: xs) (auto split: sum.splits)

text \<open>
  Lines 181 to 183: \<^verbatim>\<open>clone = {...field}\<close> followed by
  \<^verbatim>\<open>clone.selectionSet.selections = merged\<close>, as a value: the node with the selections of
  its selection set replaced.
\<close>

fun withSelections :: "SelectionNode \<Rightarrow> SelectionNode list \<Rightarrow> SelectionNode" where
  "withSelections (FIELD fn) merged =
     (case selectionSet fn of
        None \<Rightarrow> FIELD fn
      | Some old \<Rightarrow>
          FIELD (FieldNode (fieldAlias fn) (name fn) (arguments fn) (directives fn) (Some merged)))"
| "withSelections (FRAGMENT_SPREAD n ds) merged = FRAGMENT_SPREAD n ds"
| "withSelections (INLINE_FRAGMENT tc ds old) merged = INLINE_FRAGMENT tc ds merged"

subsection \<open>Termination of the recursion\<close>

text \<open>
  Every entry of the map holds selections of nodes of the input list, so the lists the
  function calls itself on are smaller than its argument.
\<close>

definition entryWeight :: "SelectionMap \<Rightarrow> nat" where
  "entryWeight m = sum_list (map (\<lambda>p. Suc (size_list size (selections (snd p)))) m)"

lemma size_children: "selectionSetOf x = Some sels \<Longrightarrow> size_list size sels < size x"
proof (cases x)
  case (FIELD fn)
  assume "selectionSetOf x = Some sels"
  with FIELD show ?thesis by (cases fn) auto
qed auto

lemma entryWeight_update_new:
  "map_of m k = None \<Longrightarrow>
   entryWeight (AList.update k v m) = entryWeight m + Suc (size_list size (selections v))"
  by (induction m) (auto simp: entryWeight_def)

lemma entryWeight_update_old:
  "map_of m k = Some e \<Longrightarrow> selections v = selections e @ s \<Longrightarrow>
   entryWeight (AList.update k v m) = entryWeight m + size_list size s"
  by (induction m) (auto simp: entryWeight_def)

lemma mergeStep_weight:
  "mergeStep x (sc, m) = Inr (sc', m') \<Longrightarrow> entryWeight m' \<le> entryWeight m + Suc (size x)"
  unfolding mergeStep_def
  by (auto split: option.splits sum.splits
      simp: Let_def entryWeight_update_new entryWeight_update_old dest!: size_children)

lemma mergeLoop_weight:
  "mergeLoop xs (sc, m) = Inr (sc', m') \<Longrightarrow> entryWeight m' \<le> entryWeight m + size_list size xs"
proof (induction xs arbitrary: sc m)
  case Nil
  then show ?case by simp
next
  case (Cons x xs)
  then obtain sc1 m1 where s: "mergeStep x (sc, m) = Inr (sc1, m1)"
    and l: "mergeLoop xs (sc1, m1) = Inr (sc', m')"
    by (auto split: sum.splits)
  from mergeStep_weight [OF s] Cons.IH [OF l] show ?case by simp
qed

lemma entryWeight_member:
  "(k, e) \<in> set m \<Longrightarrow> size_list size (selections e) < entryWeight m"
  by (induction m) (auto simp: entryWeight_def)

text \<open>
  \<^verbatim>\<open>mergeSelectionsSetsInternal\<close> (lines 154 to 189). After the first loop, each entry
  of the map, in insertion order, is turned into one node: the key of the entry's first
  field is computed again, the entry is looked up under it, its first field is cloned and
  the clone receives the merge of everything collected in the entry. The assignment goes
  through \<^verbatim>\<open>selectionSet?.\<close>, so a clone without a selection set is returned as it is
  and nothing is merged for it. The scalars go in front of the result; the final
  \<^verbatim>\<open>flat()\<close> changes nothing, the elements being nodes and not arrays.

  This definition works on values: \<open>withSelections\<close> makes a new node, where line 183
  assigns to the selection set object that the clone shares with \<^verbatim>\<open>field\<close>. So it
  describes the value the code returns only where no selection set is read after it has
  been assigned to, as when the node objects form a tree. It does not say what the call
  leaves behind in its arguments, and it is not the code's result when one node object is
  held by two selection sets: the section on the store of objects has the code with its
  assignments, and lemma \<open>shared_node_read_after_write\<close> there has an input on which
  the two differ. What is proved of this definition is proved of the code on values.
\<close>

function mergeSelectionsSetsInternal :: "SelectionNode list \<Rightarrow> error + SelectionNode list" where
  "mergeSelectionsSetsInternal fieldNodes =
     (case mergeLoop fieldNodes ([], []) of
        Inl e \<Rightarrow> Inl e
      | Inr (scalars, selectionMap) \<Rightarrow>
          (case mapE (\<lambda>selection.
                  case field selection of
                    [] \<Rightarrow> Inl TypeError
                  | first # _ \<Rightarrow>
                      (case selectionKey first of
                         Inl e \<Rightarrow> Inl e
                       | Inr nm \<Rightarrow>
                           (case map_of selectionMap nm of
                              None \<Rightarrow> Inl NotASelection
                            | Some found \<Rightarrow>
                                (case field found of
                                   [] \<Rightarrow> Inl NotASelection
                                 | fld # _ \<Rightarrow>
                                     (case selectionSetOf fld of
                                        None \<Rightarrow> Inr fld
                                      | Some old \<Rightarrow>
                                          (case mergeSelectionsSetsInternal
                                                  (selections selection) of
                                             Inl e \<Rightarrow> Inl e
                                           | Inr merged \<Rightarrow> Inr (withSelections fld merged)))))))
                (map snd selectionMap) of
             Inl e \<Rightarrow> Inl e
           | Inr result \<Rightarrow> Inr (scalars @ result)))"
  by pat_completeness auto
termination
proof (relation "measure (size_list size)")
  show "wf (measure (size_list size))" by simp
next
  fix fieldNodes :: "SelectionNode list" and st scalars selectionMap selection
  assume l: "mergeLoop fieldNodes ([], []) = Inr st" "(scalars, selectionMap) = st"
    and m: "selection \<in> set (map snd selectionMap)"
  from m obtain k where "(k, selection) \<in> set selectionMap" by auto
  from entryWeight_member [OF this]
    mergeLoop_weight [of fieldNodes "[]" "[]" scalars selectionMap] l
  show "(selections selection, fieldNodes) \<in> measure (size_list size)"
    by (simp add: entryWeight_def)
qed

declare mergeSelectionsSetsInternal.simps [simp del]

text \<open>
  \<^verbatim>\<open>mergeSelectionSets\<close> (lines 139 to 152): the selections of all the field nodes that
  have a selection set, concatenated and merged.
\<close>

definition mergeSelectionSets :: "FieldNode list \<Rightarrow> error + SelectionNode list" where
  "mergeSelectionSets fieldNodes =
     mergeSelectionsSetsInternal
       (concat (map (\<lambda>fieldNode. case selectionSet fieldNode of None \<Rightarrow> [] | Some sels \<Rightarrow> sels)
          fieldNodes))"

section \<open>Fields, scopes and schema types\<close>

text \<open>
  A composite type of the schema is an object of the \<^verbatim>\<open>graphql\<close> library. The code
  compares such objects with \<^verbatim>\<open>===\<close> and uses them as keys of a \<^verbatim>\<open>Map\<close>, both by
  object identity. A type object is therefore represented together with its reference:
  two of them are the same object exactly when they are equal here, and two different
  objects may well carry the same name.
\<close>

record GraphQLCompositeType =
  typeRef :: nat
  typeName :: string

text \<open>
  The type of a field definition, with \<^verbatim>\<open>getNamedType\<close> and \<^verbatim>\<open>isCompositeType\<close> as
  the \<^verbatim>\<open>graphql\<close> library documents them: the first strips the list and non-null
  wrappers, the second holds of object, interface and union types.
\<close>

datatype GraphQLType =
    GraphQLScalarType string
  | GraphQLObjectType string
  | GraphQLInterfaceType string
  | GraphQLUnionType string
  | GraphQLEnumType string
  | GraphQLList GraphQLType
  | GraphQLNonNull GraphQLType

fun getNamedType :: "GraphQLType \<Rightarrow> GraphQLType" where
  "getNamedType (GraphQLList t) = getNamedType t"
| "getNamedType (GraphQLNonNull t) = getNamedType t"
| "getNamedType t = t"

fun isCompositeType :: "GraphQLType \<Rightarrow> bool" where
  "isCompositeType (GraphQLObjectType n) = True"
| "isCompositeType (GraphQLInterfaceType n) = True"
| "isCompositeType (GraphQLUnionType n) = True"
| "isCompositeType t = False"

record GraphQLField =
  fieldName :: string
  fieldType :: GraphQLType

text \<open>The interfaces \<^verbatim>\<open>Scope\<close> and \<^verbatim>\<open>Field\<close> and the type \<^verbatim>\<open>FieldSet\<close> (lines 14 to 28).\<close>

datatype Scope =
  Scope (parentType: GraphQLCompositeType) (possibleTypes: "GraphQLCompositeType list")
    (enclosingScope: "Scope option")

record Field =
  scope :: Scope
  fieldNode :: FieldNode
  fieldDef :: GraphQLField

type_synonym FieldSet = "Field list"

section \<open>From a field set to a selection set\<close>

text \<open>
  Modelled from the spec: \<^verbatim>\<open>getResponseName\<close> is imported from
  \<^verbatim>\<open>./utilities/graphql\<close>, which is not among the sources. The glossary of the
  specification defines the response name of a field as its alias if one is given, else
  its name.
\<close>

definition getResponseName :: "FieldNode \<Rightarrow> string" where
  "getResponseName node = (case fieldAlias node of Some a \<Rightarrow> a | None \<Rightarrow> name node)"

text \<open>
  \<^verbatim>\<open>groupBy\<close> (lines 48 to 65). The result is a \<^verbatim>\<open>Map\<close>, here the list of its
  entries in insertion order. \<^verbatim>\<open>group.push(element)\<close> changes the array that the map
  holds, which is an update of the entry in place.
\<close>

fun groupByLoop :: "('t \<Rightarrow> 'u) \<Rightarrow> 't list \<Rightarrow> ('u \<times> 't list) list \<Rightarrow> ('u \<times> 't list) list" where
  "groupByLoop keyFunction [] result = result"
| "groupByLoop keyFunction (element # rest) result =
     (let key = keyFunction element in
      case map_of result key of
        Some grp \<Rightarrow> groupByLoop keyFunction rest (AList.update key (grp @ [element]) result)
      | None \<Rightarrow> groupByLoop keyFunction rest (AList.update key [element] result))"

definition groupBy :: "('t \<Rightarrow> 'u) \<Rightarrow> 't list \<Rightarrow> ('u \<times> 't list) list" where
  "groupBy keyFunction iterable = groupByLoop keyFunction iterable []"

definition groupByResponseName :: "FieldSet \<Rightarrow> (string \<times> FieldSet) list" where
  "groupByResponseName = groupBy (\<lambda>field. getResponseName (fieldNode field))"

definition groupByParentType :: "FieldSet \<Rightarrow> (GraphQLCompositeType \<times> FieldSet) list" where
  "groupByParentType = groupBy (\<lambda>field. parentType (scope field))"

text \<open>
  \<^verbatim>\<open>wrapInInlineFragmentIfNeeded\<close> (lines 97 to 117). The parent type, here
  \<open>parent\<close>, is an optional argument; \<^verbatim>\<open>typeCondition === parentType\<close> is false when
  it is \<^verbatim>\<open>undefined\<close>. The inline fragment that is built has a type condition and a
  selection set and nothing else.
\<close>

definition wrapInInlineFragmentIfNeeded ::
  "SelectionNode list \<Rightarrow> GraphQLCompositeType \<Rightarrow> GraphQLCompositeType option \<Rightarrow>
     SelectionNode list" where
  "wrapInInlineFragmentIfNeeded sels typeCondition parent =
     (if Some typeCondition = parent then sels
      else [INLINE_FRAGMENT (Some (typeName typeCondition)) [] sels])"

text \<open>
  \<^verbatim>\<open>combineFields\<close> (lines 119 to 137); its argument \<^verbatim>\<open>fields\<close> is \<open>fieldSet\<close>
  here. Destructuring \<^verbatim>\<open>fields[0]\<close> of an empty array throws. For a composite return
  type the result is a new field whose node is a copy of the first node with a new
  selection set; otherwise it repeats the first field.
\<close>

definition combineFields :: "FieldSet \<Rightarrow> error + Field" where
  "combineFields fieldSet =
     (case fieldSet of
        [] \<Rightarrow> Inl TypeError
      | first # _ \<Rightarrow>
          if isCompositeType (getNamedType (fieldType (fieldDef first))) then
            (case mergeSelectionSets (map fieldNode fieldSet) of
               Inl e \<Rightarrow> Inl e
             | Inr merged \<Rightarrow>
                 Inr \<lparr>scope = scope first,
                      fieldNode =
                        FieldNode (fieldAlias (fieldNode first)) (name (fieldNode first))
                          (arguments (fieldNode first)) (directives (fieldNode first))
                          (Some merged),
                      fieldDef = fieldDef first\<rparr>)
          else Inr \<lparr>scope = scope first, fieldNode = fieldNode first, fieldDef = fieldDef first\<rparr>)"

text \<open>
  The first argument of \<^verbatim>\<open>wrapInInlineFragmentIfNeeded\<close> in lines 84 to 89: the fields of
  one parent type, grouped by response name, each group combined into one field node.
\<close>

definition combinedSelections :: "FieldSet \<Rightarrow> error + SelectionNode list" where
  "combinedSelections fieldsByParentType =
     mapE (\<lambda>fieldsByResponseName.
             case combineFields fieldsByResponseName of
               Inl e \<Rightarrow> Inl e
             | Inr combined \<Rightarrow> Inr (FIELD (fieldNode combined)))
       (map snd (groupByResponseName fieldsByParentType))"

text \<open>
  \<^verbatim>\<open>selectionSetFromFieldSet\<close> (lines 75 to 95); the result is the \<^verbatim>\<open>selections\<close> of
  the selection set it returns.
\<close>

definition selectionSetFromFieldSet ::
  "FieldSet \<Rightarrow> GraphQLCompositeType option \<Rightarrow> error + SelectionNode list" where
  "selectionSetFromFieldSet fieldSet parent =
     (case mapE (\<lambda>(typeCondition, fieldsByParentType).
                  case combinedSelections fieldsByParentType of
                    Inl e \<Rightarrow> Inl e
                  | Inr sels \<Rightarrow> Inr (wrapInInlineFragmentIfNeeded sels typeCondition parent))
             (groupByParentType fieldSet) of
        Inl e \<Rightarrow> Inl e
      | Inr groups \<Rightarrow> Inr (concat groups))"

section \<open>The same code on a store of objects\<close>

text \<open>
  The definitions above treat nodes as values. In the program they are objects, and
  \<^verbatim>\<open>mergeSelectionsSetsInternal\<close> assigns to a property of an object that its argument
  shares with its result: line 181 copies the properties of \<^verbatim>\<open>field\<close> into
  \<^verbatim>\<open>clone\<close>, the property \<^verbatim>\<open>selectionSet\<close> among them, so \<^verbatim>\<open>clone.selectionSet\<close> and
  \<^verbatim>\<open>field.selectionSet\<close> are one object, and line 183 replaces the \<^verbatim>\<open>selections\<close> of
  that object. This section repeats the code on an explicit store, to say what a call
  leaves behind in its arguments. A store maps the address of a node object to the
  object and the address of a selection set object to its \<^verbatim>\<open>selections\<close>, a list of
  node addresses; \<open>nextAddr\<close> is the next free address.

  The definitions of the previous sections and the definitions of this section are
  compared on examples only. On node objects that form a tree below the fields, as in a
  parsed document, the two agree (lemma \<open>store_agrees_with_values\<close>). Where one node
  object is held by two selection sets they differ: the second read of the object sees
  what the first merge has written (lemma \<open>shared_node_read_after_write\<close>).
\<close>

type_synonym addr = nat

datatype NodeObject =
    FieldObject "string option" string "(string \<times> string) list" "string list" "addr option"
  | FragmentSpreadObject string "string list"
  | InlineFragmentObject "string option" "string list" addr

record Store =
  nodeAt :: "addr \<Rightarrow> NodeObject option"
  selectionsAt :: "addr \<Rightarrow> addr list option"
  nextAddr :: addr

text \<open>The property reads of the first sections, on objects.\<close>

fun selectionSetRef :: "NodeObject \<Rightarrow> addr option" where
  "selectionSetRef (FieldObject al nm args ds p) = p"
| "selectionSetRef (FragmentSpreadObject nm ds) = None"
| "selectionSetRef (InlineFragmentObject tc ds p) = Some p"

fun objectName :: "NodeObject \<Rightarrow> string option" where
  "objectName (FieldObject al nm args ds p) = Some nm"
| "objectName (FragmentSpreadObject nm ds) = Some nm"
| "objectName (InlineFragmentObject tc ds p) = None"

fun objectTypeCondition :: "NodeObject \<Rightarrow> error + string" where
  "objectTypeCondition (InlineFragmentObject (Some t) ds p) = Inr t"
| "objectTypeCondition obj = Inl TypeError"

definition objectKey :: "NodeObject \<Rightarrow> error + string" where
  "objectKey obj =
     (case objectName obj of
        Some n \<Rightarrow> if n \<noteq> [] then Inr n else objectTypeCondition obj
      | None \<Rightarrow> objectTypeCondition obj)"

text \<open>
  The first loop, lines 158 to 174. It only reads the store. An address without an
  object is a read of \<^verbatim>\<open>undefined\<close>.
\<close>

record EntryRef =
  fieldRefs :: "addr list"
  selectionRefs :: "addr list"

type_synonym MapRef = "(string \<times> EntryRef) list"

definition mergeStepRef ::
  "Store \<Rightarrow> addr \<Rightarrow> addr list \<times> MapRef \<Rightarrow> error + addr list \<times> MapRef" where
  "mergeStepRef st node acc =
     (case acc of (scalars, selectionMap) \<Rightarrow>
       (case nodeAt st node of
          None \<Rightarrow> Inl TypeError
        | Some obj \<Rightarrow>
            (case selectionSetRef obj of
               None \<Rightarrow>
                 Inr (if find (\<lambda>scalar. Option.bind (nodeAt st scalar) objectName = objectName obj)
                           scalars = None
                      then scalars @ [node] else scalars, selectionMap)
             | Some p \<Rightarrow>
                 (case objectKey obj of
                    Inl e \<Rightarrow> Inl e
                  | Inr nm \<Rightarrow>
                      (case selectionsAt st p of
                         None \<Rightarrow> Inl TypeError
                       | Some sels \<Rightarrow>
                           let entry = (case map_of selectionMap nm of
                                          Some s \<Rightarrow> s
                                        | None \<Rightarrow> \<lparr>fieldRefs = [node], selectionRefs = []\<rparr>)
                           in Inr (scalars,
                                AList.update nm
                                  \<lparr>fieldRefs = fieldRefs entry @ [node],
                                   selectionRefs = selectionRefs entry @ sels\<rparr> selectionMap))))))"

fun mergeLoopRef ::
  "Store \<Rightarrow> addr list \<Rightarrow> addr list \<times> MapRef \<Rightarrow> error + addr list \<times> MapRef" where
  "mergeLoopRef st [] acc = Inr acc"
| "mergeLoopRef st (node # rest) acc =
     (case mergeStepRef st node acc of
        Inl e \<Rightarrow> Inl e
      | Inr acc' \<Rightarrow> mergeLoopRef st rest acc')"

text \<open>
  Lines 176 to 185 for one entry of the map. \<open>templateOf\<close> is \<^verbatim>\<open>field\<close> of line 179.
  The clone is a new object with the properties of \<^verbatim>\<open>field\<close>. When it has a selection
  set, the collected selections are merged, which may change the store, and the result
  is stored as the \<^verbatim>\<open>selections\<close> of that selection set object, the one \<^verbatim>\<open>field\<close>
  refers to.
\<close>

definition templateOf :: "Store \<Rightarrow> MapRef \<Rightarrow> EntryRef \<Rightarrow> error + NodeObject" where
  "templateOf st selectionMap selection =
     (case fieldRefs selection of
        [] \<Rightarrow> Inl TypeError
      | first # _ \<Rightarrow>
          (case nodeAt st first of
             None \<Rightarrow> Inl TypeError
           | Some firstObj \<Rightarrow>
               (case objectKey firstObj of
                  Inl e \<Rightarrow> Inl e
                | Inr nm \<Rightarrow>
                    (case map_of selectionMap nm of
                       None \<Rightarrow> Inl NotASelection
                     | Some found \<Rightarrow>
                         (case fieldRefs found of
                            [] \<Rightarrow> Inl NotASelection
                          | fld # _ \<Rightarrow>
                              (case nodeAt st fld of
                                 None \<Rightarrow> Inl NotASelection
                               | Some obj \<Rightarrow> Inr obj))))))"

definition cloneEntry ::
  "(Store \<Rightarrow> addr list \<Rightarrow> (error + addr list \<times> Store) option) \<Rightarrow> MapRef \<Rightarrow> EntryRef \<Rightarrow> Store \<Rightarrow>
     (error + addr \<times> Store) option" where
  "cloneEntry merge selectionMap selection st =
     (case templateOf st selectionMap selection of
        Inl e \<Rightarrow> Some (Inl e)
      | Inr obj \<Rightarrow>
          (let clone = nextAddr st;
               st1 = st\<lparr>nodeAt := (nodeAt st)(clone \<mapsto> obj), nextAddr := Suc clone\<rparr>
           in case selectionSetRef obj of
                None \<Rightarrow> Some (Inr (clone, st1))
              | Some p \<Rightarrow>
                  (case merge st1 (selectionRefs selection) of
                     None \<Rightarrow> None
                   | Some (Inl e) \<Rightarrow> Some (Inl e)
                   | Some (Inr (merged, st2)) \<Rightarrow>
                       Some (Inr (clone,
                         st2\<lparr>selectionsAt := (selectionsAt st2)(p \<mapsto> merged)\<rparr>)))))"

text \<open>\<^verbatim>\<open>map\<close> with a callback that changes the store and may throw.\<close>

fun mapStore ::
  "('a \<Rightarrow> Store \<Rightarrow> (error + 'b \<times> Store) option) \<Rightarrow> 'a list \<Rightarrow> Store \<Rightarrow>
     (error + 'b list \<times> Store) option" where
  "mapStore f [] st = Some (Inr ([], st))"
| "mapStore f (x # xs) st =
     (case f x st of
        None \<Rightarrow> None
      | Some (Inl e) \<Rightarrow> Some (Inl e)
      | Some (Inr (y, st1)) \<Rightarrow>
          (case mapStore f xs st1 of
             None \<Rightarrow> None
           | Some (Inl e) \<Rightarrow> Some (Inl e)
           | Some (Inr (ys, st2)) \<Rightarrow> Some (Inr (y # ys, st2))))"

text \<open>
  \<^verbatim>\<open>mergeSelectionsSetsInternal\<close> on the store. A store may hold a cycle, on which the
  program would not return; the first argument bounds the depth of the recursion, and
  \<open>None\<close> says that the bound was reached.
\<close>

primrec mergeSelectionsSetsInternalRef ::
  "nat \<Rightarrow> Store \<Rightarrow> addr list \<Rightarrow> (error + addr list \<times> Store) option" where
  "mergeSelectionsSetsInternalRef 0 = (\<lambda>st fieldNodes. None)"
| "mergeSelectionsSetsInternalRef (Suc depth) = (\<lambda>st fieldNodes.
     case mergeLoopRef st fieldNodes ([], []) of
       Inl e \<Rightarrow> Some (Inl e)
     | Inr (scalars, selectionMap) \<Rightarrow>
         (case mapStore (cloneEntry (mergeSelectionsSetsInternalRef depth) selectionMap)
                 (map snd selectionMap) st of
            None \<Rightarrow> None
          | Some (Inl e) \<Rightarrow> Some (Inl e)
          | Some (Inr (result, st')) \<Rightarrow> Some (Inr (scalars @ result, st'))))"

text \<open>The value of a node of the store: the tree below it, read to a bounded depth.\<close>

primrec readNode :: "nat \<Rightarrow> Store \<Rightarrow> addr \<Rightarrow> SelectionNode option" where
  "readNode 0 = (\<lambda>st a. None)"
| "readNode (Suc depth) = (\<lambda>st a.
     case nodeAt st a of
       None \<Rightarrow> None
     | Some (FragmentSpreadObject nm ds) \<Rightarrow> Some (FRAGMENT_SPREAD nm ds)
     | Some (FieldObject al nm args ds None) \<Rightarrow> Some (FIELD (FieldNode al nm args ds None))
     | Some (FieldObject al nm args ds (Some p)) \<Rightarrow>
         (case Option.bind (selectionsAt st p) (\<lambda>kids. those (map (readNode depth st) kids)) of
            None \<Rightarrow> None
          | Some sels \<Rightarrow> Some (FIELD (FieldNode al nm args ds (Some sels))))
     | Some (InlineFragmentObject tc ds p) \<Rightarrow>
         (case Option.bind (selectionsAt st p) (\<lambda>kids. those (map (readNode depth st) kids)) of
            None \<Rightarrow> None
          | Some sels \<Rightarrow> Some (INLINE_FRAGMENT tc ds sels)))"

text \<open>
  The rest of the file on the store: a field holds the address of its node.
  \<^verbatim>\<open>mergeSelectionSets\<close> and \<^verbatim>\<open>combineFields\<close> build new objects (lines 126 to 133 and
  148 to 151) and so does \<^verbatim>\<open>wrapInInlineFragmentIfNeeded\<close>; they assign to none.
\<close>

record FieldRef =
  scopeOf :: Scope
  fieldNodeRef :: addr
  fieldDefOf :: GraphQLField

definition getResponseNameRef :: "Store \<Rightarrow> FieldRef \<Rightarrow> string" where
  "getResponseNameRef st f =
     (case nodeAt st (fieldNodeRef f) of
        Some (FieldObject (Some a) nm args ds p) \<Rightarrow> a
      | Some (FieldObject None nm args ds p) \<Rightarrow> nm
      | _ \<Rightarrow> [])"

definition selectionsOfRef :: "Store \<Rightarrow> addr \<Rightarrow> error + addr list" where
  "selectionsOfRef st node =
     (case nodeAt st node of
        None \<Rightarrow> Inl TypeError
      | Some obj \<Rightarrow>
          (case selectionSetRef obj of
             None \<Rightarrow> Inr []
           | Some p \<Rightarrow> (case selectionsAt st p of None \<Rightarrow> Inl TypeError | Some sels \<Rightarrow> Inr sels)))"

definition newSelectionSet :: "addr list \<Rightarrow> Store \<Rightarrow> addr \<times> Store" where
  "newSelectionSet sels st =
     (nextAddr st,
      st\<lparr>selectionsAt := (selectionsAt st)(nextAddr st \<mapsto> sels), nextAddr := Suc (nextAddr st)\<rparr>)"

definition newNode :: "NodeObject \<Rightarrow> Store \<Rightarrow> addr \<times> Store" where
  "newNode obj st =
     (nextAddr st,
      st\<lparr>nodeAt := (nodeAt st)(nextAddr st \<mapsto> obj), nextAddr := Suc (nextAddr st)\<rparr>)"

definition mergeSelectionSetsRef ::
  "nat \<Rightarrow> addr list \<Rightarrow> Store \<Rightarrow> (error + addr \<times> Store) option" where
  "mergeSelectionSetsRef depth fieldNodes st =
     (case mapE (selectionsOfRef st) fieldNodes of
        Inl e \<Rightarrow> Some (Inl e)
      | Inr sels \<Rightarrow>
          (case mergeSelectionsSetsInternalRef depth st (concat sels) of
             None \<Rightarrow> None
           | Some (Inl e) \<Rightarrow> Some (Inl e)
           | Some (Inr (merged, st1)) \<Rightarrow> Some (Inr (newSelectionSet merged st1))))"

definition combineFieldsRef ::
  "nat \<Rightarrow> FieldRef list \<Rightarrow> Store \<Rightarrow> (error + addr \<times> Store) option" where
  "combineFieldsRef depth fieldSet st =
     (case fieldSet of
        [] \<Rightarrow> Some (Inl TypeError)
      | first # _ \<Rightarrow>
          if isCompositeType (getNamedType (fieldType (fieldDefOf first))) then
            (case nodeAt st (fieldNodeRef first) of
               Some (FieldObject al nm args ds old) \<Rightarrow>
                 (case mergeSelectionSetsRef depth (map fieldNodeRef fieldSet) st of
                    None \<Rightarrow> None
                  | Some (Inl e) \<Rightarrow> Some (Inl e)
                  | Some (Inr (p, st1)) \<Rightarrow>
                      Some (Inr (newNode (FieldObject al nm args ds (Some p)) st1)))
             | _ \<Rightarrow> Some (Inl TypeError))
          else Some (Inr (fieldNodeRef first, st)))"

definition wrapInInlineFragmentIfNeededRef ::
  "addr list \<Rightarrow> GraphQLCompositeType \<Rightarrow> GraphQLCompositeType option \<Rightarrow> Store \<Rightarrow>
     addr list \<times> Store" where
  "wrapInInlineFragmentIfNeededRef sels typeCondition parent st =
     (if Some typeCondition = parent then (sels, st)
      else (case newSelectionSet sels st of
              (p, st1) \<Rightarrow>
                (case newNode (InlineFragmentObject (Some (typeName typeCondition)) [] p) st1 of
                   (fragment, st2) \<Rightarrow> ([fragment], st2))))"

definition selectionSetFromFieldSetRef ::
  "nat \<Rightarrow> FieldRef list \<Rightarrow> GraphQLCompositeType option \<Rightarrow> Store \<Rightarrow>
     (error + addr list \<times> Store) option" where
  "selectionSetFromFieldSetRef depth fieldSet parent st =
     (case mapStore (\<lambda>(typeCondition, fieldsByParentType) st1.
              case mapStore (combineFieldsRef depth)
                     (map snd (groupBy (getResponseNameRef st1) fieldsByParentType)) st1 of
                None \<Rightarrow> None
              | Some (Inl e) \<Rightarrow> Some (Inl e)
              | Some (Inr (sels, st2)) \<Rightarrow>
                  Some (Inr (wrapInInlineFragmentIfNeededRef sels typeCondition parent st2)))
             (groupBy (\<lambda>f. parentType (scopeOf f)) fieldSet) st of
        None \<Rightarrow> None
      | Some (Inl e) \<Rightarrow> Some (Inl e)
      | Some (Inr (groups, st')) \<Rightarrow> Some (Inr (concat groups, st')))"

section \<open>The schema normalizer\<close>

text \<open>
  Modelled from the spec: \<^verbatim>\<open>defaultRootOperationTypes\<close> and
  \<^verbatim>\<open>stripExternalFieldsFromTypeDefs\<close> are imported by \<^verbatim>\<open>utils.test.ts\<close> from
  \<^verbatim>\<open>../utils\<close>, which is not among the sources. The data model follows section 3 of
  the specification: a document is a sequence of object type definitions, extensions and
  a schema declaration; a schema declaration binds operation kinds to type names; a field
  definition has a name, the name of its declared return type and a flag that says
  whether it is marked as externally owned. The second component of a type definition or
  extension holds its other annotations, such as an entity key.
\<close>

datatype OperationKind = QueryOperation | MutationOperation | SubscriptionOperation

record FieldDefinition =
  definedName :: string
  returnTypeName :: string
  external :: bool

datatype Definition =
    ObjectTypeDefinition string "string list" "FieldDefinition list"
  | ObjectTypeExtension string "string list" "FieldDefinition list"
  | SchemaDeclaration "(OperationKind \<times> string) list"

type_synonym TypeDefDocument = "Definition list"

datatype StructuralReferenceError = StructuralReferenceError string

text \<open>
  Modelled from the spec: \<^verbatim>\<open>defaultRootOperationTypes\<close>, the specification's
  \<^verbatim>\<open>normalizeRootTypes\<close> (section 4.1), is not among the sources. Without a schema
  declaration the document passes through unchanged. With one, a binding that names a
  type without a definition in the document is a structural error naming that type; the
  schema declaration is removed; a type definition bound by the declaration becomes an
  extension of the default root type name of its operation kind; any other type
  definition with one of the three default root type names is dropped; and on every
  definition that is kept a field is dropped if the name of its return type is the name
  of a dropped type. The third test of \<^verbatim>\<open>utils.test.ts\<close> (lines 92 to 125) shows that
  this last rule applies to the rewritten root types as well.
\<close>

fun defaultRootName :: "OperationKind \<Rightarrow> string" where
  "defaultRootName QueryOperation = ''Query''"
| "defaultRootName MutationOperation = ''Mutation''"
| "defaultRootName SubscriptionOperation = ''Subscription''"

definition defaultRootNames :: "string list" where
  "defaultRootNames = [''Query'', ''Mutation'', ''Subscription'']"

fun schemaDeclaration :: "TypeDefDocument \<Rightarrow> (OperationKind \<times> string) list option" where
  "schemaDeclaration [] = None"
| "schemaDeclaration (SchemaDeclaration bindings # rest) = Some bindings"
| "schemaDeclaration (d # rest) = schemaDeclaration rest"

fun definedTypeName :: "Definition \<Rightarrow> string option" where
  "definedTypeName (ObjectTypeDefinition n anns fs) = Some n"
| "definedTypeName d = None"

definition boundTypeNames :: "(OperationKind \<times> string) list \<Rightarrow> string list" where
  "boundTypeNames bindings = map snd bindings"

definition droppedTypeNames :: "(OperationKind \<times> string) list \<Rightarrow> TypeDefDocument \<Rightarrow> string list" where
  "droppedTypeNames bindings doc =
     filter (\<lambda>n. n \<in> set defaultRootNames \<and> n \<notin> set (boundTypeNames bindings))
       (List.map_filter definedTypeName doc)"

definition keptFields :: "string list \<Rightarrow> FieldDefinition list \<Rightarrow> FieldDefinition list" where
  "keptFields dropped fs = filter (\<lambda>f. returnTypeName f \<notin> set dropped) fs"

definition rootNameOf :: "(OperationKind \<times> string) list \<Rightarrow> string \<Rightarrow> string option" where
  "rootNameOf bindings n =
     map_option (\<lambda>b. defaultRootName (fst b)) (find (\<lambda>b. snd b = n) bindings)"

fun normalizeDefinition ::
  "(OperationKind \<times> string) list \<Rightarrow> string list \<Rightarrow> Definition \<Rightarrow> Definition option" where
  "normalizeDefinition bindings dropped (SchemaDeclaration bs) = None"
| "normalizeDefinition bindings dropped (ObjectTypeDefinition n anns fs) =
     (case rootNameOf bindings n of
        Some root \<Rightarrow> Some (ObjectTypeExtension root anns (keptFields dropped fs))
      | None \<Rightarrow>
          if n \<in> set dropped then None
          else Some (ObjectTypeDefinition n anns (keptFields dropped fs)))"
| "normalizeDefinition bindings dropped (ObjectTypeExtension n anns fs) =
     Some (ObjectTypeExtension n anns (keptFields dropped fs))"

definition defaultRootOperationTypes ::
  "TypeDefDocument \<Rightarrow> StructuralReferenceError + TypeDefDocument" where
  "defaultRootOperationTypes doc =
     (case schemaDeclaration doc of
        None \<Rightarrow> Inr doc
      | Some bindings \<Rightarrow>
          (case find (\<lambda>b. snd b \<notin> set (List.map_filter definedTypeName doc)) bindings of
             Some missing \<Rightarrow> Inl (StructuralReferenceError (snd missing))
           | None \<Rightarrow>
               Inr (List.map_filter
                      (normalizeDefinition bindings (droppedTypeNames bindings doc)) doc)))"

text \<open>
  Modelled from the spec: \<^verbatim>\<open>stripExternalFieldsFromTypeDefs\<close>, the specification's
  \<^verbatim>\<open>stripExternalFields\<close> (section 4.1), is not among the sources. Every field marked
  as externally owned is removed from its type definition or extension, which itself
  stays; for every field removed there is a record of the field, the name of the type it
  was on and the name of the service, in document order.
\<close>

record StrippedFieldRecord =
  strippedField :: FieldDefinition
  parentTypeName :: string
  serviceName :: string

fun stripDefinition :: "Definition \<Rightarrow> Definition" where
  "stripDefinition (ObjectTypeDefinition n anns fs) =
     ObjectTypeDefinition n anns (filter (\<lambda>f. \<not> external f) fs)"
| "stripDefinition (ObjectTypeExtension n anns fs) =
     ObjectTypeExtension n anns (filter (\<lambda>f. \<not> external f) fs)"
| "stripDefinition (SchemaDeclaration bs) = SchemaDeclaration bs"

fun strippedOf :: "string \<Rightarrow> Definition \<Rightarrow> StrippedFieldRecord list" where
  "strippedOf s (ObjectTypeDefinition n anns fs) =
     map (\<lambda>f. \<lparr>strippedField = f, parentTypeName = n, serviceName = s\<rparr>) (filter external fs)"
| "strippedOf s (ObjectTypeExtension n anns fs) =
     map (\<lambda>f. \<lparr>strippedField = f, parentTypeName = n, serviceName = s\<rparr>) (filter external fs)"
| "strippedOf s (SchemaDeclaration bs) = []"

definition stripExternalFieldsFromTypeDefs ::
  "TypeDefDocument \<Rightarrow> string \<Rightarrow> TypeDefDocument \<times> StrippedFieldRecord list" where
  "stripExternalFieldsFromTypeDefs doc s =
     (map stripDefinition doc, concat (map (strippedOf s) doc))"

section \<open>What the merge computes\<close>

text \<open>
  The loops above keep first occurrences: of leaf nodes by name, of keys, of groups. The
  functions of this section say the same without a loop, so that the theorems below can
  state what the loops compute. The first occurrence of each key, in order of appearance:
\<close>

primrec firstByKey :: "('a \<Rightarrow> 'k) \<Rightarrow> 'a list \<Rightarrow> 'a list" where
  "firstByKey key [] = []"
| "firstByKey key (x # xs) = x # filter (\<lambda>y. key y \<noteq> key x) (firstByKey key xs)"

text \<open>
  A leaf item is a node without a selection set (line 160); \<open>leafItems\<close> are the first
  leaf items of each name. A branching item belongs to the group of its key
  (\<open>groupName\<close> is the key where \<open>selectionKey\<close> yields one); \<open>groupKeys\<close> are the keys
  in order of first appearance, \<open>members\<close> the branching items of one key and
  \<open>children\<close> the selections of a node. \<open>keysOK\<close> holds when every branching item of
  the list has a key.
\<close>

definition isLeaf :: "SelectionNode \<Rightarrow> bool" where
  "isLeaf x = (selectionSetOf x = None)"

definition leafItems :: "SelectionNode list \<Rightarrow> SelectionNode list" where
  "leafItems xs = firstByKey nameValue (filter isLeaf xs)"

definition groupName :: "SelectionNode \<Rightarrow> string" where
  "groupName x = (case selectionKey x of Inr k \<Rightarrow> k | Inl e \<Rightarrow> [])"

definition groupKeys :: "SelectionNode list \<Rightarrow> string list" where
  "groupKeys xs = firstByKey (\<lambda>k. k) (map groupName (filter (\<lambda>x. \<not> isLeaf x) xs))"

definition members :: "SelectionNode list \<Rightarrow> string \<Rightarrow> SelectionNode list" where
  "members xs k = filter (\<lambda>x. \<not> isLeaf x \<and> groupName x = k) xs"

definition children :: "SelectionNode \<Rightarrow> SelectionNode list" where
  "children x = (case selectionSetOf x of None \<Rightarrow> [] | Some sels \<Rightarrow> sels)"

definition keysOK :: "SelectionNode list \<Rightarrow> bool" where
  "keysOK xs = (\<forall>x \<in> set xs. \<not> isLeaf x \<longrightarrow> selectionKey x = Inr (groupName x))"

text \<open>The entry of \<^verbatim>\<open>selectionMap\<close> for a key, and the node line 176 to 185 make of it.\<close>

definition entryOf :: "SelectionNode list \<Rightarrow> string \<Rightarrow> SelectionEntry" where
  "entryOf xs k = \<lparr>field = hd (members xs k) # members xs k,
                   selections = concat (map children (members xs k))\<rparr>"

definition mergeGroup :: "SelectionNode list \<Rightarrow> string \<Rightarrow> error + SelectionNode" where
  "mergeGroup xs k =
     (case mergeSelectionsSetsInternal (concat (map children (members xs k))) of
        Inl e \<Rightarrow> Inl e
      | Inr merged \<Rightarrow> Inr (withSelections (hd (members xs k)) merged))"

text \<open>
  A node is keyed when every node in it that has a selection set has a key: a field a
  name that is not empty, an inline fragment a type condition.
\<close>

fun keyed :: "SelectionNode \<Rightarrow> bool" where
  "keyed (FIELD (FieldNode al nm args ds None)) = True"
| "keyed (FIELD (FieldNode al nm args ds (Some sels))) = (nm \<noteq> [] \<and> (\<forall>s \<in> set sels. keyed s))"
| "keyed (FRAGMENT_SPREAD nm ds) = True"
| "keyed (INLINE_FRAGMENT tc ds sels) = (tc \<noteq> None \<and> (\<forall>s \<in> set sels. keyed s))"

text \<open>
  For the field set as a whole: the declaring types (the parent types of the fields'
  scopes) in order of first appearance, the fields of one declaring type, the response
  names of a field set in order of first appearance, and the fields of one response name.
\<close>

definition declaringTypes :: "FieldSet \<Rightarrow> GraphQLCompositeType list" where
  "declaringTypes fieldSet = firstByKey (\<lambda>t. t) (map (\<lambda>f. parentType (scope f)) fieldSet)"

definition fieldsOfType :: "FieldSet \<Rightarrow> GraphQLCompositeType \<Rightarrow> FieldSet" where
  "fieldsOfType fieldSet t = filter (\<lambda>f. parentType (scope f) = t) fieldSet"

definition responseNames :: "FieldSet \<Rightarrow> string list" where
  "responseNames fieldSet = firstByKey (\<lambda>r. r) (map (\<lambda>f. getResponseName (fieldNode f)) fieldSet)"

definition fieldsNamed :: "FieldSet \<Rightarrow> string \<Rightarrow> FieldSet" where
  "fieldsNamed fieldSet r = filter (\<lambda>f. getResponseName (fieldNode f) = r) fieldSet"

text \<open>
  For the normalizer: the fields of a definition, its name, whether it is a schema
  declaration, the definition without its fields, and whether it is a type definition
  with a dropped name.
\<close>

fun fieldsOf :: "Definition \<Rightarrow> FieldDefinition list" where
  "fieldsOf (ObjectTypeDefinition n anns fs) = fs"
| "fieldsOf (ObjectTypeExtension n anns fs) = fs"
| "fieldsOf (SchemaDeclaration bs) = []"

fun isSchemaDeclaration :: "Definition \<Rightarrow> bool" where
  "isSchemaDeclaration (SchemaDeclaration bs) = True"
| "isSchemaDeclaration d = False"

fun withoutFields :: "Definition \<Rightarrow> Definition" where
  "withoutFields (ObjectTypeDefinition n anns fs) = ObjectTypeDefinition n anns []"
| "withoutFields (ObjectTypeExtension n anns fs) = ObjectTypeExtension n anns []"
| "withoutFields (SchemaDeclaration bs) = SchemaDeclaration bs"

definition isDropped :: "string list \<Rightarrow> Definition \<Rightarrow> bool" where
  "isDropped dropped d = (case definedTypeName d of Some n \<Rightarrow> n \<in> set dropped | None \<Rightarrow> False)"

fun definitionName :: "Definition \<Rightarrow> string" where
  "definitionName (ObjectTypeDefinition n anns fs) = n"
| "definitionName (ObjectTypeExtension n anns fs) = n"
| "definitionName (SchemaDeclaration bs) = []"

section \<open>Example nodes\<close>

text \<open>The leaf fields \<^verbatim>\<open>a\<close> and \<^verbatim>\<open>c\<close> and the field \<^verbatim>\<open>b { x }\<close>.\<close>

definition exA :: SelectionNode where "exA = FIELD (FieldNode None ''a'' [] [] None)"
definition exB :: SelectionNode where
  "exB = FIELD (FieldNode None ''b'' [] [] (Some [FIELD (FieldNode None ''x'' [] [] None)]))"
definition exC :: SelectionNode where "exC = FIELD (FieldNode None ''c'' [] [] None)"


text \<open>
  Three type objects that are all named \<^verbatim>\<open>Product\<close>, and fields on them: the scalar
  fields \<^verbatim>\<open>a\<close> and \<^verbatim>\<open>c\<close>, the field \<^verbatim>\<open>b\<close> of an object type, once as
  \<^verbatim>\<open>b { x }\<close> and once as \<^verbatim>\<open>b { y }\<close>. Last, leaf fields with aliases: \<^verbatim>\<open>small: picture(size: 1)\<close>,
  \<^verbatim>\<open>large: picture(size: 2)\<close>, \<^verbatim>\<open>id: name\<close> and \<^verbatim>\<open>id: sku\<close>.
\<close>

definition exProduct :: GraphQLCompositeType where
  "exProduct = \<lparr>typeRef = 1, typeName = ''Product''\<rparr>"
definition exProduct2 :: GraphQLCompositeType where
  "exProduct2 = \<lparr>typeRef = 2, typeName = ''Product''\<rparr>"
definition exProduct3 :: GraphQLCompositeType where
  "exProduct3 = \<lparr>typeRef = 3, typeName = ''Product''\<rparr>"

definition exFieldA :: Field where
  "exFieldA = \<lparr>scope = Scope exProduct [] None,
               fieldNode = FieldNode None ''a'' [] [] None,
               fieldDef = \<lparr>fieldName = ''a'', fieldType = GraphQLScalarType ''String''\<rparr>\<rparr>"
definition exFieldC2 :: Field where
  "exFieldC2 = \<lparr>scope = Scope exProduct2 [] None,
               fieldNode = FieldNode None ''c'' [] [] None,
               fieldDef = \<lparr>fieldName = ''c'', fieldType = GraphQLScalarType ''String''\<rparr>\<rparr>"

definition exX :: SelectionNode where "exX = FIELD (FieldNode None ''x'' [] [] None)"
definition exY :: SelectionNode where "exY = FIELD (FieldNode None ''y'' [] [] None)"

definition exFieldB1 :: Field where
  "exFieldB1 = \<lparr>scope = Scope exProduct [] None,
               fieldNode = FieldNode None ''b'' [] [] (Some [exX]),
               fieldDef = \<lparr>fieldName = ''b'', fieldType = GraphQLObjectType ''B''\<rparr>\<rparr>"
definition exFieldB2 :: Field where
  "exFieldB2 = \<lparr>scope = Scope exProduct [] None,
               fieldNode = FieldNode None ''b'' [] [] (Some [exY]),
               fieldDef = \<lparr>fieldName = ''b'', fieldType = GraphQLObjectType ''B''\<rparr>\<rparr>"
definition exFieldC :: Field where
  "exFieldC = \<lparr>scope = Scope exProduct [] None,
               fieldNode = FieldNode None ''c'' [] [] None,
               fieldDef = \<lparr>fieldName = ''c'', fieldType = GraphQLScalarType ''String''\<rparr>\<rparr>"
definition exSmall :: SelectionNode where
  "exSmall = FIELD (FieldNode (Some ''small'') ''picture'' [(''size'', ''1'')] [] None)"
definition exLarge :: SelectionNode where
  "exLarge = FIELD (FieldNode (Some ''large'') ''picture'' [(''size'', ''2'')] [] None)"
definition exIdName :: SelectionNode where
  "exIdName = FIELD (FieldNode (Some ''id'') ''name'' [] [] None)"
definition exIdSku :: SelectionNode where
  "exIdSku = FIELD (FieldNode (Some ''id'') ''sku'' [] [] None)"

text \<open>
  The documents of \<^verbatim>\<open>utils.test.ts\<close>: the three of \<^verbatim>\<open>defaultRootOperationTypes\<close> (lines
  14 to 31, 52 to 76 and 93 to 111) with the first one's snapshot, the one of
  \<^verbatim>\<open>stripExternalFieldsFromTypeDefs\<close> (lines 130 to 142), and a document in which a
  dropped type is referenced directly by \<^verbatim>\<open>RootQuery.q\<close> and \<^verbatim>\<open>A.q\<close> and through
  \<^verbatim>\<open>A\<close> by \<^verbatim>\<open>B.a\<close>.
\<close>

definition plainField :: "string \<Rightarrow> string \<Rightarrow> FieldDefinition" where
  "plainField n t = \<lparr>definedName = n, returnTypeName = t, external = False\<rparr>"

definition exRootTypes :: TypeDefDocument where
  "exRootTypes = [SchemaDeclaration [(QueryOperation, ''RootQuery''), (MutationOperation, ''RootMutation'')],
            ObjectTypeDefinition ''RootQuery'' [] [plainField ''product'' ''Product''],
            ObjectTypeDefinition ''Product'' [] [plainField ''sku'' ''String''],
            ObjectTypeDefinition ''RootMutation'' [] [plainField ''updateProduct'' ''Product'']]"

definition exCollision :: TypeDefDocument where
  "exCollision = [SchemaDeclaration [(QueryOperation, ''RootQuery'')],
            ObjectTypeDefinition ''RootQuery'' [] [plainField ''product'' ''Product''],
            ObjectTypeDefinition ''Product'' [] [plainField ''sku'' ''String''],
            ObjectTypeDefinition ''Query'' [] [plainField ''removeThisEntireType'' ''String''],
            ObjectTypeDefinition ''Mutation'' [] [plainField ''removeThisEntireType'' ''String''],
            ObjectTypeDefinition ''Subscription'' [] [plainField ''removeThisEntireType'' ''String'']]"

definition exInvalidField :: TypeDefDocument where
  "exInvalidField = [SchemaDeclaration [(QueryOperation, ''RootQuery''), (MutationOperation, ''RootMutation'')],
            ObjectTypeDefinition ''RootQuery'' [] [plainField ''product'' ''Product''],
            ObjectTypeDefinition ''Query'' [] [plainField ''removeThisEntireType'' ''String''],
            ObjectTypeDefinition ''RootMutation'' []
              [plainField ''keepThisField'' ''String'', plainField ''removeThisField'' ''Query'']]"


definition exRootTypesOut :: TypeDefDocument where
  "exRootTypesOut = [ObjectTypeExtension ''Query'' [] [plainField ''product'' ''Product''],
           ObjectTypeDefinition ''Product'' [] [plainField ''sku'' ''String''],
           ObjectTypeExtension ''Mutation'' [] [plainField ''updateProduct'' ''Product'']]"

definition exOneHop :: TypeDefDocument where
  "exOneHop = [SchemaDeclaration [(QueryOperation, ''RootQuery'')],
            ObjectTypeDefinition ''RootQuery'' [] [plainField ''a'' ''A'', plainField ''q'' ''Query''],
            ObjectTypeDefinition ''A'' [] [plainField ''q'' ''Query'', plainField ''s'' ''String''],
            ObjectTypeDefinition ''Query'' [] [plainField ''unrelatedField'' ''String''],
            ObjectTypeDefinition ''B'' [] [plainField ''a'' ''A'']]"

definition exOneHopOut :: TypeDefDocument where
  "exOneHopOut = [ObjectTypeExtension ''Query'' [] [plainField ''a'' ''A''],
           ObjectTypeDefinition ''A'' [] [plainField ''s'' ''String''],
           ObjectTypeDefinition ''B'' [] [plainField ''a'' ''A'']]"

definition exExternal :: TypeDefDocument where
  "exExternal =
     [ObjectTypeDefinition ''Query'' [] [plainField ''product'' ''Product''],
      ObjectTypeExtension ''Product'' [''key(fields: sku)'']
        [\<lparr>definedName = ''sku'', returnTypeName = ''String'', external = True\<rparr>],
      ObjectTypeDefinition ''Mutation'' [] [plainField ''updateProduct'' ''Product'']]"


text \<open>
  A store with the field \<^verbatim>\<open>p { q { x } q { y } }\<close>: the node objects at 0 to 4, the
  selection set objects at 10 to 12.
\<close>

definition exStore :: Store where
  "exStore =
     \<lparr>nodeAt = map_of
        [(0, FieldObject None ''p'' [] [] (Some 10)),
         (1, FieldObject None ''q'' [] [] (Some 11)),
         (2, FieldObject None ''q'' [] [] (Some 12)),
         (3, FieldObject None ''x'' [] [] None),
         (4, FieldObject None ''y'' [] [] None)],
      selectionsAt = map_of [(10, [1, 2]), (11, [3]), (12, [4])],
      nextAddr = 20\<rparr>"

definition exFieldRef :: FieldRef where
  "exFieldRef = \<lparr>scopeOf = Scope exProduct [] None, fieldNodeRef = 0,
                 fieldDefOf = \<lparr>fieldName = ''p'', fieldType = GraphQLObjectType ''P''\<rparr>\<rparr>"


definition exQx :: SelectionNode where "exQx = FIELD (FieldNode None ''q'' [] [] (Some [exX]))"
definition exQy :: SelectionNode where "exQy = FIELD (FieldNode None ''q'' [] [] (Some [exY]))"
definition exQxy :: SelectionNode where "exQxy = FIELD (FieldNode None ''q'' [] [] (Some [exX, exY]))"
definition exFieldP :: Field where
  "exFieldP = \<lparr>scope = Scope exProduct [] None,
               fieldNode = FieldNode None ''p'' [] [] (Some [exQx, exQy]),
               fieldDef = \<lparr>fieldName = ''p'', fieldType = GraphQLObjectType ''P''\<rparr>\<rparr>"

text \<open>
  Two fields \<^verbatim>\<open>p\<close> of an object type on one type object, requested as
  \<^verbatim>\<open>p { small: picture(size: 1) }\<close> and as \<^verbatim>\<open>p { large: picture(size: 2) }\<close>, as values
  and as objects of a store: the node objects at 0 to 3, the selection set objects at 10
  and 11.
\<close>

definition exFieldPSmall :: Field where
  "exFieldPSmall = \<lparr>scope = Scope exProduct [] None,
               fieldNode = FieldNode None ''p'' [] [] (Some [exSmall]),
               fieldDef = \<lparr>fieldName = ''p'', fieldType = GraphQLObjectType ''P''\<rparr>\<rparr>"
definition exFieldPLarge :: Field where
  "exFieldPLarge = \<lparr>scope = Scope exProduct [] None,
               fieldNode = FieldNode None ''p'' [] [] (Some [exLarge]),
               fieldDef = \<lparr>fieldName = ''p'', fieldType = GraphQLObjectType ''P''\<rparr>\<rparr>"

definition exAliasStore :: Store where
  "exAliasStore =
     \<lparr>nodeAt = map_of
        [(0, FieldObject None ''p'' [] [] (Some 10)),
         (1, FieldObject None ''p'' [] [] (Some 11)),
         (2, FieldObject (Some ''small'') ''picture'' [(''size'', ''1'')] [] None),
         (3, FieldObject (Some ''large'') ''picture'' [(''size'', ''2'')] [] None)],
      selectionsAt = map_of [(10, [2]), (11, [3])],
      nextAddr = 20\<rparr>"

definition exFieldRefSmall :: FieldRef where
  "exFieldRefSmall = \<lparr>scopeOf = Scope exProduct [] None, fieldNodeRef = 0,
                 fieldDefOf = \<lparr>fieldName = ''p'', fieldType = GraphQLObjectType ''P''\<rparr>\<rparr>"
definition exFieldRefLarge :: FieldRef where
  "exFieldRefLarge = \<lparr>scopeOf = Scope exProduct [] None, fieldNodeRef = 1,
                 fieldDefOf = \<lparr>fieldName = ''p'', fieldType = GraphQLObjectType ''P''\<rparr>\<rparr>"

text \<open>
  A store in which one node object is held by two selection sets: the fields
  \<^verbatim>\<open>p1 { q { x } q { y } }\<close> and \<^verbatim>\<open>p2 { q { x } }\<close>, where the node \<^verbatim>\<open>q { x }\<close> of the
  two is the one object at 2. Beside it the two fields as values.
\<close>

definition exSharedStore :: Store where
  "exSharedStore =
     \<lparr>nodeAt = map_of
        [(0, FieldObject None ''p1'' [] [] (Some 10)),
         (1, FieldObject None ''p2'' [] [] (Some 11)),
         (2, FieldObject None ''q'' [] [] (Some 12)),
         (3, FieldObject None ''q'' [] [] (Some 13)),
         (4, FieldObject None ''x'' [] [] None),
         (5, FieldObject None ''y'' [] [] None)],
      selectionsAt = map_of [(10, [2, 3]), (11, [2]), (12, [4]), (13, [5])],
      nextAddr = 20\<rparr>"

definition exFieldRefP1 :: FieldRef where
  "exFieldRefP1 = \<lparr>scopeOf = Scope exProduct [] None, fieldNodeRef = 0,
                 fieldDefOf = \<lparr>fieldName = ''p1'', fieldType = GraphQLObjectType ''P''\<rparr>\<rparr>"
definition exFieldRefP2 :: FieldRef where
  "exFieldRefP2 = \<lparr>scopeOf = Scope exProduct [] None, fieldNodeRef = 1,
                 fieldDefOf = \<lparr>fieldName = ''p2'', fieldType = GraphQLObjectType ''P''\<rparr>\<rparr>"

definition exFieldP1 :: Field where
  "exFieldP1 = \<lparr>scope = Scope exProduct [] None,
               fieldNode = FieldNode None ''p1'' [] [] (Some [exQx, exQy]),
               fieldDef = \<lparr>fieldName = ''p1'', fieldType = GraphQLObjectType ''P''\<rparr>\<rparr>"
definition exFieldP2 :: Field where
  "exFieldP2 = \<lparr>scope = Scope exProduct [] None,
               fieldNode = FieldNode None ''p2'' [] [] (Some [exQx]),
               fieldDef = \<lparr>fieldName = ''p2'', fieldType = GraphQLObjectType ''P''\<rparr>\<rparr>"

section \<open>The loops in closed form\<close>

lemma firstByKey_subset: "set (firstByKey key xs) \<subseteq> set xs"
  by (induction xs) auto

lemma firstByKey_keys: "key ` set (firstByKey key xs) = key ` set xs"
proof (induction xs)
  case Nil
  show ?case by simp
next
  case (Cons a xs)
  have "key ` set (filter (\<lambda>y. key y \<noteq> key a) (firstByKey key xs)) =
        key ` set (firstByKey key xs) - {key a}"
    by auto
  with Cons show ?case by auto
qed

lemma firstByKey_id_set: "set (firstByKey (\<lambda>k. k) xs) = set xs"
  using firstByKey_keys [of "\<lambda>k. k" xs] by simp

lemma firstByKey_distinct: "distinct (map key (firstByKey key xs))"
  by (induction xs) (auto simp: distinct_map_filter)

lemma firstByKey_snoc:
  "firstByKey key (xs @ [x]) =
     (if key x \<in> key ` set xs then firstByKey key xs else firstByKey key xs @ [x])"
  by (induction xs) auto

lemma firstByKey_append_known:
  "key ` set ys \<subseteq> key ` set xs \<Longrightarrow> firstByKey key (xs @ ys) = firstByKey key xs"
proof (induction ys rule: rev_induct)
  case Nil
  show ?case by simp
next
  case (snoc y ys)
  then have "key y \<in> key ` set (xs @ ys)" by auto
  with snoc firstByKey_snoc [of key "xs @ ys" y] show ?case by simp
qed

lemma find_key_None: "(find (\<lambda>y. key y = k) ys = None) = (k \<notin> key ` set ys)"
  by (induction ys) auto

lemma mergeLoop_append:
  "mergeLoop (xs @ ys) st = (case mergeLoop xs st of Inl e \<Rightarrow> Inl e | Inr st' \<Rightarrow> mergeLoop ys st')"
  by (induction xs arbitrary: st) (auto split: sum.splits)

lemma selectionKey_error: "selectionKey x = Inl e \<Longrightarrow> e = TypeError"
  by (cases x rule: typeConditionNameValue.cases) (auto simp: selectionKey_def split: if_splits)

lemma selectionKey_cases:
  "selectionKey x = Inr (groupName x) \<or> selectionKey x = Inl TypeError"
  by (cases "selectionKey x") (auto simp: groupName_def dest: selectionKey_error)

lemma map_of_keyed:
  "map_of (map (\<lambda>k. (k, f k)) ks) k = (if k \<in> set ks then Some (f k) else None)"
  by (induction ks) auto

lemma update_keyed:
  "distinct ks \<Longrightarrow>
   AList.update k v (map (\<lambda>k'. (k', f k')) ks) =
     map (\<lambda>k'. (k', (f(k := v)) k')) (if k \<in> set ks then ks else ks @ [k])"
  by (induction ks) auto

lemma groupKeys_distinct: "distinct (groupKeys xs)"
  using firstByKey_distinct [of "\<lambda>k. k"] by (simp add: groupKeys_def)

lemma groupKeys_set: "set (groupKeys xs) = groupName ` {x \<in> set xs. \<not> isLeaf x}"
  using firstByKey_keys [of "\<lambda>k. k" "map groupName (filter (\<lambda>x. \<not> isLeaf x) xs)"]
  by (auto simp: groupKeys_def)

lemma members_empty_iff: "members xs k = [] \<longleftrightarrow> k \<notin> set (groupKeys xs)"
  by (auto simp: members_def groupKeys_set filter_empty_conv)

lemma groupKeys_snoc:
  "groupKeys (xs @ [x]) =
     (if isLeaf x \<or> groupName x \<in> set (groupKeys xs) then groupKeys xs
      else groupKeys xs @ [groupName x])"
  by (auto simp: groupKeys_def firstByKey_snoc firstByKey_id_set)

lemma mergeLoop_closed:
  "mergeLoop xs ([], []) =
     (if keysOK xs then Inr (leafItems xs, map (\<lambda>k. (k, entryOf xs k)) (groupKeys xs))
      else Inl TypeError)"
proof (induction xs rule: rev_induct)
  case Nil
  show ?case by (simp add: keysOK_def leafItems_def groupKeys_def)
next
  case (snoc x xs)
  show ?case
  proof (cases "keysOK xs")
    case False
    then have "\<not> keysOK (xs @ [x])" by (auto simp: keysOK_def)
    with False snoc show ?thesis by (simp add: mergeLoop_append)
  next
    case True
    note ok = True
    show ?thesis
    proof (cases "isLeaf x")
      case True
      then have 1: "keysOK (xs @ [x])" using ok by (auto simp: keysOK_def)
      have 2: "groupKeys (xs @ [x]) = groupKeys xs" using True by (simp add: groupKeys_snoc)
      have 3: "\<And>k. entryOf (xs @ [x]) k = entryOf xs k"
        using True by (simp add: entryOf_def members_def)
      have 4: "leafItems (xs @ [x]) =
        (if find (\<lambda>scalar. nameValue scalar = nameValue x) (leafItems xs) = None
         then leafItems xs @ [x] else leafItems xs)"
        using True
        by (simp add: leafItems_def firstByKey_snoc find_key_None firstByKey_keys)
      show ?thesis using True ok snoc
        by (simp add: mergeLoop_append 1 2 3 4 mergeStep_def isLeaf_def)
    next
      case False
      then obtain sels where sels: "selectionSetOf x = Some sels"
        by (auto simp: isLeaf_def)
      show ?thesis
      proof (cases "selectionKey x = Inr (groupName x)")
        case bad: False
        then have "selectionKey x = Inl TypeError" using selectionKey_cases [of x] by simp
        moreover have "\<not> keysOK (xs @ [x])" using bad False by (auto simp: keysOK_def)
        ultimately show ?thesis using ok snoc sels
          by (simp add: mergeLoop_append mergeStep_def)
      next
        case good: True
        define k where "k = groupName x"
        have 1: "keysOK (xs @ [x])" using ok good by (auto simp: keysOK_def)
        have 2: "leafItems (xs @ [x]) = leafItems xs" using False by (simp add: leafItems_def)
        have ch: "children x = sels" using sels by (simp add: children_def)
        have mk: "members (xs @ [x]) k = members xs k @ [x]"
          using False by (simp add: members_def k_def)
        have mo: "\<And>k'. k' \<noteq> k \<Longrightarrow> members (xs @ [x]) k' = members xs k'"
          using False by (auto simp add: members_def k_def)
        have eo: "\<And>k'. k' \<noteq> k \<Longrightarrow> entryOf (xs @ [x]) k' = entryOf xs k'"
          by (simp add: entryOf_def mo)
        let ?M = "map (\<lambda>k. (k, entryOf xs k)) (groupKeys xs)"
        let ?new = "entryOf (xs @ [x]) k"
        have ek: "?new =
          (let entry = (case map_of ?M k of
                          Some s \<Rightarrow> s
                        | None \<Rightarrow> \<lparr>field = [x], selections = []\<rparr>)
           in \<lparr>field = field entry @ [x], selections = selections entry @ sels\<rparr>)"
        proof (cases "k \<in> set (groupKeys xs)")
          case True
          then have "members xs k \<noteq> []" by (simp add: members_empty_iff)
          then show ?thesis using True by (simp add: entryOf_def mk ch map_of_keyed)
        next
          case False
          then have "members xs k = []" by (simp add: members_empty_iff)
          then show ?thesis using False by (simp add: entryOf_def mk ch map_of_keyed)
        qed
        have step: "mergeStep x (leafItems xs, ?M) = Inr (leafItems xs, AList.update k ?new ?M)"
          using sels good by (simp add: mergeStep_def k_def [symmetric] ek Let_def)
        have gk: "groupKeys (xs @ [x]) =
          (if k \<in> set (groupKeys xs) then groupKeys xs else groupKeys xs @ [k])"
          using \<open>\<not> isLeaf x\<close> by (simp add: groupKeys_snoc k_def)
        have "map (\<lambda>k'. (k', ((entryOf xs)(k := ?new)) k')) (groupKeys (xs @ [x])) =
              map (\<lambda>k'. (k', entryOf (xs @ [x]) k')) (groupKeys (xs @ [x]))"
          by (rule map_cong) (auto simp: eo)
        then have upd: "AList.update k ?new ?M =
          map (\<lambda>k'. (k', entryOf (xs @ [x]) k')) (groupKeys (xs @ [x]))"
          using update_keyed [OF groupKeys_distinct, of k ?new "entryOf xs" xs] gk by simp
        have "mergeLoop (xs @ [x]) ([], []) = mergeStep x (leafItems xs, ?M)"
          using ok snoc by (simp add: mergeLoop_append split: sum.splits)
        then show ?thesis using step upd 1 2 by simp
      qed
    qed
  qed
qed

lemma mergeLoop_lookup:
  assumes "mergeLoop xs ([], []) = Inr (scalars, selectionMap)"
    and "(k, e) \<in> set selectionMap"
  shows "\<exists>fld rest old. field e = fld # rest \<and> selectionKey fld = Inr k \<and>
           map_of selectionMap k = Some e \<and> selectionSetOf fld = Some old"
proof -
  from assms(1) have ok: "keysOK xs"
    and m: "selectionMap = map (\<lambda>k. (k, entryOf xs k)) (groupKeys xs)"
    by (auto simp: mergeLoop_closed split: if_splits)
  from assms(2) m have k: "k \<in> set (groupKeys xs)" and e: "e = entryOf xs k" by auto
  from k have "members xs k \<noteq> []" by (simp add: members_empty_iff)
  then have "hd (members xs k) \<in> set (members xs k)" by simp
  then have h: "hd (members xs k) \<in> set xs" "\<not> isLeaf (hd (members xs k))"
    "groupName (hd (members xs k)) = k"
    by (auto simp: members_def)
  with ok have "selectionKey (hd (members xs k)) = Inr k" by (auto simp: keysOK_def)
  moreover have "map_of selectionMap k = Some e" using k e m by (simp add: map_of_keyed)
  moreover have "field e = hd (members xs k) # members xs k" using e by (simp add: entryOf_def)
  moreover obtain old where "selectionSetOf (hd (members xs k)) = Some old"
    using h(2) by (auto simp: isLeaf_def)
  ultimately show ?thesis by blast
qed

lemma mapE_map: "mapE f (map g xs) = mapE (\<lambda>x. f (g x)) xs"
  by (induction xs) (auto split: sum.splits)

lemma merge_unfold:
  "mergeSelectionsSetsInternal xs =
     (if keysOK xs
      then (case mapE (mergeGroup xs) (groupKeys xs) of
              Inl e \<Rightarrow> Inl e
            | Inr result \<Rightarrow> Inr (leafItems xs @ result))
      else Inl TypeError)"
proof (cases "keysOK xs")
  case False
  then show ?thesis by (subst mergeSelectionsSetsInternal.simps) (simp add: mergeLoop_closed)
next
  case True
  let ?m = "map (\<lambda>k. (k, entryOf xs k)) (groupKeys xs)"
  have l: "mergeLoop xs ([], []) = Inr (leafItems xs, ?m)" using True by (simp add: mergeLoop_closed)
  have "mapE (\<lambda>selection.
                  case field selection of
                    [] \<Rightarrow> Inl TypeError
                  | first # _ \<Rightarrow>
                      (case selectionKey first of
                         Inl e \<Rightarrow> Inl e
                       | Inr nm \<Rightarrow>
                           (case map_of ?m nm of
                              None \<Rightarrow> Inl NotASelection
                            | Some found \<Rightarrow>
                                (case field found of
                                   [] \<Rightarrow> Inl NotASelection
                                 | fld # _ \<Rightarrow>
                                     (case selectionSetOf fld of
                                        None \<Rightarrow> Inr fld
                                      | Some old \<Rightarrow>
                                          (case mergeSelectionsSetsInternal
                                                  (selections selection) of
                                             Inl e \<Rightarrow> Inl e
                                           | Inr merged \<Rightarrow> Inr (withSelections fld merged)))))))
                (map snd ?m) = mapE (mergeGroup xs) (groupKeys xs)"
    unfolding mapE_map map_map
  proof (rule mapE_cong [OF refl])
    fix k assume "k \<in> set (groupKeys xs)"
    then have "(k, entryOf xs k) \<in> set ?m" by auto
    from mergeLoop_lookup [OF l this] obtain fld rest old where
      "field (entryOf xs k) = fld # rest" "selectionKey fld = Inr k"
      "map_of ?m k = Some (entryOf xs k)" "selectionSetOf fld = Some old"
      by blast
    moreover from this(1) have "fld = hd (members xs k)" by (auto simp: entryOf_def)
    ultimately show "(case field ((snd \<circ> (\<lambda>k. (k, entryOf xs k))) k) of
             [] \<Rightarrow> Inl TypeError
           | first # _ \<Rightarrow>
               (case selectionKey first of
                  Inl e \<Rightarrow> Inl e
                | Inr nm \<Rightarrow>
                    (case map_of ?m nm of
                       None \<Rightarrow> Inl NotASelection
                     | Some found \<Rightarrow>
                         (case field found of
                            [] \<Rightarrow> Inl NotASelection
                          | fld # _ \<Rightarrow>
                              (case selectionSetOf fld of
                                 None \<Rightarrow> Inr fld
                               | Some old \<Rightarrow>
                                   (case mergeSelectionsSetsInternal
                                           (selections ((snd \<circ> (\<lambda>k. (k, entryOf xs k))) k)) of
                                      Inl e \<Rightarrow> Inl e
                                    | Inr merged \<Rightarrow> Inr (withSelections fld merged))))))) =
         mergeGroup xs k"
      by (simp add: mergeGroup_def) (simp add: entryOf_def)
  qed
  then show ?thesis using True l
    by (subst mergeSelectionsSetsInternal.simps) simp
qed

section \<open>Merging a list that is repeated\<close>

lemma members_size:
  assumes "keysOK xs" and "k \<in> set (groupKeys xs)"
  shows "size_list size (concat (map children (members xs k))) < size_list size xs"
proof -
  let ?M = "map (\<lambda>k. (k, entryOf xs k)) (groupKeys xs)"
  have l: "mergeLoop xs ([], []) = Inr (leafItems xs, ?M)"
    using assms(1) by (simp add: mergeLoop_closed)
  have "(k, entryOf xs k) \<in> set ?M" using assms(2) by auto
  from entryWeight_member [OF this] mergeLoop_weight [OF l]
  show ?thesis by (simp add: entryOf_def entryWeight_def)
qed

lemma keysOK_twice: "keysOK (xs @ xs) = keysOK xs"
  by (auto simp: keysOK_def)

lemma leafItems_twice: "leafItems (xs @ xs) = leafItems xs"
  by (simp add: leafItems_def firstByKey_append_known)

lemma groupKeys_twice: "groupKeys (xs @ xs) = groupKeys xs"
  by (simp add: groupKeys_def firstByKey_append_known)

lemma merge_twice: "mergeSelectionsSetsInternal (xs @ xs) = mergeSelectionsSetsInternal xs"
proof (induction "size_list size xs" arbitrary: xs rule: less_induct)
  case less
  show ?case
  proof (cases "keysOK xs")
    case False
    then show ?thesis
      unfolding merge_unfold [of "xs @ xs"] merge_unfold [of xs] by (simp add: keysOK_twice)
  next
    case True
    have "mergeGroup (xs @ xs) k = mergeGroup xs k" if k: "k \<in> set (groupKeys xs)" for k
    proof -
      let ?c = "concat (map children (members xs k))"
      have ne: "members xs k \<noteq> []" using k by (simp add: members_empty_iff)
      have m: "members (xs @ xs) k = members xs k @ members xs k" by (simp add: members_def)
      have "mergeSelectionsSetsInternal (?c @ ?c) = mergeSelectionsSetsInternal ?c"
        by (rule less) (rule members_size [OF True k])
      then show ?thesis unfolding mergeGroup_def m using ne by (simp cong: sum.case_cong)
    qed
    then have "mapE (mergeGroup (xs @ xs)) (groupKeys xs) = mapE (mergeGroup xs) (groupKeys xs)"
      by (intro mapE_cong) auto
    then show ?thesis
      unfolding merge_unfold [of "xs @ xs"] merge_unfold [of xs]
      by (simp add: keysOK_twice leafItems_twice groupKeys_twice cong: sum.case_cong)
  qed
qed

lemma groupByLoop_append:
  "groupByLoop key (xs @ ys) r = groupByLoop key ys (groupByLoop key xs r)"
  by (induction xs arbitrary: r) (auto simp: Let_def split: option.splits)

lemma groupBy_closed:
  "groupBy key xs =
     map (\<lambda>k. (k, filter (\<lambda>x. key x = k) xs)) (firstByKey (\<lambda>k. k) (map key xs))"
proof (induction xs rule: rev_induct)
  case Nil
  show ?case by (simp add: groupBy_def)
next
  case (snoc x xs)
  let ?ks = "firstByKey (\<lambda>k. k) (map key xs)"
  let ?g = "\<lambda>ys k. filter (\<lambda>x. key x = k) ys"
  let ?M = "map (\<lambda>k. (k, ?g xs k)) ?ks"
  have d: "distinct ?ks" using firstByKey_distinct [of "\<lambda>k. k" "map key xs"] by simp
  have ks: "firstByKey (\<lambda>k. k) (map key (xs @ [x])) =
    (if key x \<in> set ?ks then ?ks else ?ks @ [key x])"
    by (simp add: firstByKey_snoc firstByKey_id_set)
  have l: "groupBy key (xs @ [x]) = groupByLoop key [x] ?M"
    using snoc.IH by (simp add: groupBy_def groupByLoop_append)
  have step: "groupBy key (xs @ [x]) = AList.update (key x) (?g (xs @ [x]) (key x)) ?M"
  proof (cases "key x \<in> key ` set xs")
    case True
    then have "map_of ?M (key x) = Some (?g xs (key x))"
      by (simp add: map_of_keyed firstByKey_id_set)
    then show ?thesis unfolding l by (simp add: Let_def)
  next
    case False
    then have "filter (\<lambda>y. key y = key x) xs = []"
      by (auto simp: filter_empty_conv image_iff)
    moreover from False have "map_of ?M (key x) = None"
      by (simp add: map_of_keyed firstByKey_id_set)
    ultimately show ?thesis unfolding l by (simp add: Let_def)
  qed
  have "map (\<lambda>k. (k, ((?g xs)(key x := ?g (xs @ [x]) (key x))) k))
          (firstByKey (\<lambda>k. k) (map key (xs @ [x]))) =
        map (\<lambda>k. (k, ?g (xs @ [x]) k)) (firstByKey (\<lambda>k. k) (map key (xs @ [x])))"
    by (rule map_cong) auto
  then show ?case
    using step update_keyed [OF d, of "key x" "?g (xs @ [x]) (key x)" "?g xs"] ks by simp
qed

lemma combinedSelections_closed:
  "combinedSelections fieldSet =
     mapE (\<lambda>r. case combineFields (fieldsNamed fieldSet r) of
                  Inl e \<Rightarrow> Inl e
                | Inr combined \<Rightarrow> Inr (FIELD (fieldNode combined)))
       (responseNames fieldSet)"
  by (simp add: combinedSelections_def groupByResponseName_def groupBy_closed mapE_map
      responseNames_def fieldsNamed_def comp_def)

lemma selectionSetFromFieldSet_closed:
  "selectionSetFromFieldSet fieldSet parent =
     (case mapE (\<lambda>t. case combinedSelections (fieldsOfType fieldSet t) of
                        Inl e \<Rightarrow> Inl e
                      | Inr sels \<Rightarrow> Inr (wrapInInlineFragmentIfNeeded sels t parent))
             (declaringTypes fieldSet) of
        Inl e \<Rightarrow> Inl e
      | Inr groups \<Rightarrow> Inr (concat groups))"
  by (simp add: selectionSetFromFieldSet_def groupByParentType_def groupBy_closed mapE_map
      declaringTypes_def fieldsOfType_def comp_def)

lemma fieldsNamed_nonempty: "r \<in> set (responseNames fieldSet) \<Longrightarrow> fieldsNamed fieldSet r \<noteq> []"
  by (auto simp: responseNames_def fieldsNamed_def firstByKey_id_set filter_empty_conv)

lemma mergeSelectionSets_twice:
  "mergeSelectionSets (nodes @ nodes) = mergeSelectionSets nodes"
  by (simp add: mergeSelectionSets_def merge_twice)

lemma combineFields_hd:
  "g \<noteq> [] \<Longrightarrow>
   combineFields g =
     (if isCompositeType (getNamedType (fieldType (fieldDef (hd g)))) then
        (case mergeSelectionSets (map fieldNode g) of
           Inl e \<Rightarrow> Inl e
         | Inr merged \<Rightarrow>
             Inr \<lparr>scope = scope (hd g),
                  fieldNode =
                    FieldNode (fieldAlias (fieldNode (hd g))) (name (fieldNode (hd g)))
                      (arguments (fieldNode (hd g))) (directives (fieldNode (hd g)))
                      (Some merged),
                  fieldDef = fieldDef (hd g)\<rparr>)
      else Inr (hd g))"
  by (cases g) (simp_all add: combineFields_def cong: sum.case_cong)

lemma combineFields_twice: "g \<noteq> [] \<Longrightarrow> combineFields (g @ g) = combineFields g"
  by (simp add: combineFields_hd mergeSelectionSets_twice cong: sum.case_cong)

lemma combinedSelections_twice: "combinedSelections (fs @ fs) = combinedSelections fs"
proof -
  have r: "responseNames (fs @ fs) = responseNames fs"
    by (simp add: responseNames_def firstByKey_append_known)
  show ?thesis
    unfolding combinedSelections_closed r
    by (rule mapE_cong [OF refl])
      (use fieldsNamed_nonempty in \<open>simp add: fieldsNamed_def combineFields_twice [simplified]\<close>)
qed

section \<open>The groups of a selection set\<close>

lemma mapE_wrap:
  "mapE (\<lambda>x. case f x of Inl e \<Rightarrow> Inl e | Inr y \<Rightarrow> Inr (h x y)) xs = Inr zs \<Longrightarrow>
   \<exists>ys. list_all2 (\<lambda>x y. f x = Inr y) xs ys \<and> zs = map (\<lambda>(x, y). h x y) (zip xs ys)"
proof (induction xs arbitrary: zs)
  case Nil
  then show ?case by simp
next
  case (Cons x xs)
  then obtain y zs' where y: "f x = Inr y"
    and r: "mapE (\<lambda>x. case f x of Inl e \<Rightarrow> Inl e | Inr y \<Rightarrow> Inr (h x y)) xs = Inr zs'"
    and zs: "zs = h x y # zs'"
    by (auto split: sum.splits)
  from Cons.IH [OF r] obtain ys where
    "list_all2 (\<lambda>x y. f x = Inr y) xs ys" "zs' = map (\<lambda>(x, y). h x y) (zip xs ys)"
    by blast
  with y zs have "list_all2 (\<lambda>x y. f x = Inr y) (x # xs) (y # ys) \<and>
    zs = map (\<lambda>(x, y). h x y) (zip (x # xs) (y # ys))" by simp
  then show ?case by blast
qed

lemma list_all2_image:
  "list_all2 (\<lambda>x y. \<exists>z. y = f z \<and> Q x z) xs ys \<Longrightarrow> \<exists>zs. ys = map f zs \<and> list_all2 Q xs zs"
proof (induction xs ys rule: list_all2_induct)
  case Nil
  show ?case by simp
next
  case (Cons x xs y ys)
  then obtain z zs where "y = f z" "Q x z" "ys = map f zs" "list_all2 Q xs zs" by blast
  then have "y # ys = map f (z # zs) \<and> list_all2 Q (x # xs) (z # zs)" by simp
  then show ?case by (rule exI [where x = "z # zs"])
qed

lemma combineFields_responseName:
  assumes "g \<noteq> []" and "combineFields g = Inr c"
  shows "getResponseName (fieldNode c) = getResponseName (fieldNode (hd g))"
  using assms
  by (auto simp: combineFields_hd getResponseName_def split: if_splits sum.splits option.splits)

lemma hd_fieldsNamed:
  assumes "r \<in> set (responseNames fs)"
  shows "getResponseName (fieldNode (hd (fieldsNamed fs r))) = r"
proof -
  from assms have "fieldsNamed fs r \<noteq> []" by (rule fieldsNamed_nonempty)
  then have "hd (fieldsNamed fs r) \<in> set (fieldsNamed fs r)" by simp
  then show ?thesis by (simp add: fieldsNamed_def)
qed

lemma responseNames_distinct: "distinct (responseNames fs)"
  using firstByKey_distinct [of "\<lambda>r. r"] by (simp add: responseNames_def)

lemma responseNames_set:
  "set (responseNames fs) = (\<lambda>f. getResponseName (fieldNode f)) ` set fs"
  by (simp add: responseNames_def firstByKey_id_set)

lemma combinedSelections_nodes:
  assumes "combinedSelections fs = Inr sels"
  shows "\<exists>nodes. sels = map FIELD nodes \<and> map getResponseName nodes = responseNames fs"
proof -
  from assms have "mapE (\<lambda>r. case combineFields (fieldsNamed fs r) of
                  Inl e \<Rightarrow> Inl e
                | Inr combined \<Rightarrow> Inr (FIELD (fieldNode combined)))
       (responseNames fs) = Inr sels"
    by (simp add: combinedSelections_closed)
  from mapE_wrap [OF this] obtain cs where
    cs: "list_all2 (\<lambda>r c. combineFields (fieldsNamed fs r) = Inr c) (responseNames fs) cs"
    and sels: "sels = map (\<lambda>(r, c). FIELD (fieldNode c)) (zip (responseNames fs) cs)"
    by blast
  have len: "length cs = length (responseNames fs)"
    using cs by (simp add: list_all2_lengthD)
  have c: "getResponseName (fieldNode (cs ! i)) = responseNames fs ! i"
    if "i < length (responseNames fs)" for i
  proof -
    from that have r: "responseNames fs ! i \<in> set (responseNames fs)" by simp
    from cs that have "combineFields (fieldsNamed fs (responseNames fs ! i)) = Inr (cs ! i)"
      by (simp add: list_all2_conv_all_nth)
    from combineFields_responseName [OF fieldsNamed_nonempty [OF r] this] hd_fieldsNamed [OF r]
    show ?thesis by simp
  qed
  have 1: "sels = map FIELD (map fieldNode cs)"
    unfolding sels using len by (auto intro!: nth_equalityI)
  have 2: "map getResponseName (map fieldNode cs) = responseNames fs"
    using c len by (auto intro!: nth_equalityI)
  from 1 2 show ?thesis by blast
qed

section \<open>Facts about the normalizer\<close>

lemma rootNameOf_Some:
  "rootNameOf bindings n = Some root \<longleftrightarrow>
     (\<exists>b. find (\<lambda>b. snd b = n) bindings = Some b \<and> root = defaultRootName (fst b))"
  by (auto simp: rootNameOf_def)

lemma rootNameOf_None: "rootNameOf bindings n = None \<longleftrightarrow> n \<notin> set (boundTypeNames bindings)"
  by (force simp: rootNameOf_def boundTypeNames_def find_None_iff)

lemma rootNameOf_SomeD: "rootNameOf bindings n = Some root \<Longrightarrow> n \<in> set (boundTypeNames bindings)"
  using rootNameOf_None [of bindings n] by auto

lemma set_map_filter: "set (List.map_filter f xs) = {y. \<exists>x \<in> set xs. f x = Some y}"
  by (induction xs) (auto simp: map_filter_simps split: option.splits)

lemma rootNameOf_bound:
  assumes "(op, n) \<in> set bindings"
  shows "\<exists>op'. (op', n) \<in> set bindings \<and> rootNameOf bindings n = Some (defaultRootName op')"
proof -
  from assms have "find (\<lambda>b. snd b = n) bindings \<noteq> None" by (auto simp: find_None_iff)
  then obtain b where b: "find (\<lambda>b. snd b = n) bindings = Some b" by auto
  then have "b \<in> set bindings" "snd b = n" by (auto simp: find_Some_iff)
  then have "(fst b, n) \<in> set bindings" by auto
  with b show ?thesis by (auto simp: rootNameOf_def)
qed

lemma dropped_not_bound:
  "n \<in> set (droppedTypeNames bindings doc) \<Longrightarrow> n \<notin> set (boundTypeNames bindings)"
  by (simp add: droppedTypeNames_def)

lemma normalizeDefinition_None:
  "normalizeDefinition bindings (droppedTypeNames bindings doc) d = None \<longleftrightarrow>
     isSchemaDeclaration d \<or> isDropped (droppedTypeNames bindings doc) d"
  by (cases d)
    (auto simp: isDropped_def rootNameOf_None dest: dropped_not_bound rootNameOf_SomeD
      split: option.splits)

lemma normalizeDefinition_fields:
  "normalizeDefinition bindings dropped d = Some d' \<Longrightarrow> fieldsOf d' = keptFields dropped (fieldsOf d)"
  by (cases d) (auto split: option.splits if_splits)

lemma defaultRootOperationTypes_Inr:
  assumes "schemaDeclaration doc = Some bindings" and "defaultRootOperationTypes doc = Inr out"
  shows "out = List.map_filter (normalizeDefinition bindings (droppedTypeNames bindings doc)) doc"
  using assms by (auto simp: defaultRootOperationTypes_def split: option.splits)

lemma stripDefinition_fields: "fieldsOf (stripDefinition d) = filter (\<lambda>f. \<not> external f) (fieldsOf d)"
  by (cases d) auto

lemma stripDefinition_head: "withoutFields (stripDefinition d) = withoutFields d"
  by (cases d) auto

lemma strippedOf_eq:
  "strippedOf s d =
     map (\<lambda>f. \<lparr>strippedField = f, parentTypeName = definitionName d, serviceName = s\<rparr>)
       (filter external (fieldsOf d))"
  by (cases d) auto

text \<open>The model returns the snapshots of the three tests of lines 13 to 125.\<close>

lemma normalizer_fixtures:
  "defaultRootOperationTypes exRootTypes = Inr exRootTypesOut"
  "defaultRootOperationTypes exCollision =
     Inr [ObjectTypeExtension ''Query'' [] [plainField ''product'' ''Product''],
          ObjectTypeDefinition ''Product'' [] [plainField ''sku'' ''String'']]"
  "defaultRootOperationTypes exInvalidField =
     Inr [ObjectTypeExtension ''Query'' [] [plainField ''product'' ''Product''],
          ObjectTypeExtension ''Mutation'' [] [plainField ''keepThisField'' ''String'']]"
  by code_simp+

section \<open>When the merge returns\<close>

text \<open>
  The merge throws on an inline fragment without a type condition, and on a field with a
  selection set and an empty name, wherever in the list it stands; it returns on every
  other list. The only exception it throws is the \<open>TypeError\<close>.
\<close>

lemma keyed_key: "keyed x \<Longrightarrow> \<not> isLeaf x \<Longrightarrow> selectionKey x = Inr (groupName x)"
  by (cases x rule: keyed.cases) (auto simp: isLeaf_def selectionKey_def groupName_def)

lemma keyed_children: "keyed x \<Longrightarrow> s \<in> set (children x) \<Longrightarrow> keyed s"
  by (cases x rule: keyed.cases) (auto simp: children_def)

lemma unkeyed_cases:
  "\<not> keyed x \<Longrightarrow> \<not> isLeaf x \<and> (selectionKey x \<noteq> Inr (groupName x) \<or> (\<exists>s \<in> set (children x). \<not> keyed s))"
  by (cases x rule: keyed.cases) (auto simp: isLeaf_def selectionKey_def groupName_def children_def)

lemma mapE_all_Inr:
  "(\<And>x. x \<in> set xs \<Longrightarrow> \<exists>y. f x = Inr y) \<Longrightarrow> \<exists>ys. mapE f xs = Inr ys"
proof (induction xs)
  case Nil
  show ?case by simp
next
  case (Cons x xs)
  then obtain y ys where "f x = Inr y" "mapE f xs = Inr ys" by (metis list.set_intros)
  then show ?case by simp
qed

lemma mapE_some_Inl:
  assumes "x \<in> set xs" and "f x = Inl e" and "\<And>x e'. x \<in> set xs \<Longrightarrow> f x = Inl e' \<Longrightarrow> e' = e"
  shows "mapE f xs = Inl e"
  using assms
proof (induction xs)
  case Nil
  then show ?case by simp
next
  case (Cons a xs)
  show ?case
  proof (cases "f a")
    case (Inl e')
    with Cons.prems(3) [of a e'] show ?thesis by simp
  next
    case (Inr y)
    with Cons.prems have "x \<in> set xs" by auto
    from Cons.IH [OF this Cons.prems(2)] Cons.prems(3) have "mapE f xs = Inl e" by auto
    with Inr show ?thesis by simp
  qed
qed

lemma merge_returns:
  "mergeSelectionsSetsInternal xs = Inl TypeError \<and> \<not> list_all keyed xs \<or>
   (\<exists>out. mergeSelectionsSetsInternal xs = Inr out) \<and> list_all keyed xs"
proof (induction "size_list size xs" arbitrary: xs rule: less_induct)
  case less
  show ?case
  proof (cases "keysOK xs")
    case False
    then obtain x where "x \<in> set xs" "\<not> isLeaf x" "selectionKey x \<noteq> Inr (groupName x)"
      by (auto simp: keysOK_def)
    with keyed_key have "\<not> list_all keyed xs" by (auto simp: list_all_iff)
    with False show ?thesis unfolding merge_unfold [of xs] by simp
  next
    case True
    let ?c = "\<lambda>k. concat (map children (members xs k))"
    have ih: "mergeSelectionsSetsInternal (?c k) = Inl TypeError \<and> \<not> list_all keyed (?c k) \<or>
      (\<exists>out. mergeSelectionsSetsInternal (?c k) = Inr out) \<and> list_all keyed (?c k)"
      if "k \<in> set (groupKeys xs)" for k
      by (rule less) (rule members_size [OF True that])
    show ?thesis
    proof (cases "list_all keyed xs")
      case k: True
      have "\<exists>g. mergeGroup xs k = Inr g" if "k \<in> set (groupKeys xs)" for k
      proof -
        have "list_all keyed (?c k)"
          using k by (auto simp: list_all_iff members_def dest: keyed_children)
        with ih [OF that] show ?thesis by (auto simp: mergeGroup_def)
      qed
      from mapE_all_Inr [of "groupKeys xs" "mergeGroup xs", OF this]
      show ?thesis using True k unfolding merge_unfold [of xs] by auto
    next
      case False
      then obtain x where x: "x \<in> set xs" "\<not> keyed x" by (auto simp: list_all_iff)
      from unkeyed_cases [OF x(2)] True x(1) obtain s where
        s: "\<not> isLeaf x" "s \<in> set (children x)" "\<not> keyed s"
        by (auto simp: keysOK_def)
      let ?k = "groupName x"
      have kin: "?k \<in> set (groupKeys xs)" using x(1) s(1) by (auto simp: groupKeys_set)
      have "x \<in> set (members xs ?k)" using x(1) s(1) by (simp add: members_def)
      with s have "\<not> list_all keyed (?c ?k)" by (auto simp: list_all_iff)
      with ih [OF kin] have "mergeGroup xs ?k = Inl TypeError" by (auto simp: mergeGroup_def)
      moreover have "e = TypeError" if "k \<in> set (groupKeys xs)" "mergeGroup xs k = Inl e" for k e
        using ih [OF that(1)] that(2) by (auto simp: mergeGroup_def split: sum.splits)
      ultimately have "mapE (mergeGroup xs) (groupKeys xs) = Inl TypeError"
        using kin by (intro mapE_some_Inl) auto
      with True False show ?thesis unfolding merge_unfold [of xs] by simp
    qed
  qed
qed

lemma merge_returns_iff:
  "(\<exists>out. mergeSelectionsSetsInternal xs = Inr out) \<longleftrightarrow> list_all keyed xs"
  using merge_returns [of xs] by auto

lemma merge_throws_iff:
  "mergeSelectionsSetsInternal xs = Inl TypeError \<longleftrightarrow> \<not> list_all keyed xs"
  using merge_returns [of xs] by auto

lemma mergeSelectionSets_returns:
  assumes "\<And>n. n \<in> set nodes \<Longrightarrow> list_all keyed (children (FIELD n))"
  shows "\<exists>merged. mergeSelectionSets nodes = Inr merged"
proof -
  have "(\<lambda>n. case selectionSet n of None \<Rightarrow> [] | Some sels \<Rightarrow> sels) = (\<lambda>n. children (FIELD n))"
    by (simp add: children_def fun_eq_iff)
  then have "mergeSelectionSets nodes =
    mergeSelectionsSetsInternal (concat (map (\<lambda>n. children (FIELD n)) nodes))"
    by (simp add: mergeSelectionSets_def)
  moreover have "list_all keyed (concat (map (\<lambda>n. children (FIELD n)) nodes))"
    using assms by (auto simp: list_all_iff)
  ultimately show ?thesis by (simp add: merge_returns_iff)
qed

lemma combineFields_returns:
  assumes "g \<noteq> []" and "\<And>f. f \<in> set g \<Longrightarrow> list_all keyed (children (FIELD (fieldNode f)))"
  shows "\<exists>c. combineFields g = Inr c"
proof -
  from assms(2) have "\<exists>merged. mergeSelectionSets (map fieldNode g) = Inr merged"
    by (intro mergeSelectionSets_returns) auto
  with assms(1) show ?thesis by (auto simp: combineFields_hd)
qed

lemma combinedSelections_returns:
  assumes "\<And>f. f \<in> set fs \<Longrightarrow> list_all keyed (children (FIELD (fieldNode f)))"
  shows "\<exists>sels. combinedSelections fs = Inr sels"
  unfolding combinedSelections_closed
proof (rule mapE_all_Inr)
  fix r assume "r \<in> set (responseNames fs)"
  then have "fieldsNamed fs r \<noteq> []" by (rule fieldsNamed_nonempty)
  moreover have "list_all keyed (children (FIELD (fieldNode f)))" if "f \<in> set (fieldsNamed fs r)" for f
    using that assms by (simp add: fieldsNamed_def)
  ultimately obtain c where "combineFields (fieldsNamed fs r) = Inr c"
    using combineFields_returns by blast
  then show "\<exists>y. (case combineFields (fieldsNamed fs r) of
                    Inl e \<Rightarrow> Inl e
                  | Inr combined \<Rightarrow> Inr (FIELD (fieldNode combined))) = Inr y"
    by simp
qed

lemma selectionSetFromFieldSet_returns:
  assumes "list_all (\<lambda>f. list_all keyed (children (FIELD (fieldNode f)))) fieldSet"
  shows "\<exists>out. selectionSetFromFieldSet fieldSet parent = Inr out"
proof -
  have "\<exists>groups. mapE (\<lambda>t. case combinedSelections (fieldsOfType fieldSet t) of
                        Inl e \<Rightarrow> Inl e
                      | Inr sels \<Rightarrow> Inr (wrapInInlineFragmentIfNeeded sels t parent))
             (declaringTypes fieldSet) = Inr groups"
  proof (rule mapE_all_Inr)
    fix t
    have "\<exists>sels. combinedSelections (fieldsOfType fieldSet t) = Inr sels"
      using assms by (intro combinedSelections_returns) (auto simp: fieldsOfType_def list_all_iff)
    then show "\<exists>y. (case combinedSelections (fieldsOfType fieldSet t) of
                        Inl e \<Rightarrow> Inl e
                      | Inr sels \<Rightarrow> Inr (wrapInInlineFragmentIfNeeded sels t parent)) = Inr y"
      by auto
  qed
  then show ?thesis by (auto simp: selectionSetFromFieldSet_closed)
qed

text \<open>
  On the example store the code computes the values the definitions on values give, for
  the field set \<^verbatim>\<open>[F]\<close> and for \<^verbatim>\<open>[F, F]\<close>, in which both fields hold the same node
  object.
\<close>

lemma store_agrees_with_values:
  "(case selectionSetFromFieldSetRef 4 [exFieldRef] (Some exProduct) exStore of
      Some (Inr (out, st')) \<Rightarrow> those (map (readNode 4 st') out)
    | _ \<Rightarrow> None) = Some [FIELD (FieldNode None ''p'' [] [] (Some [exQxy]))]"
  "(case selectionSetFromFieldSetRef 4 [exFieldRef, exFieldRef] (Some exProduct) exStore of
      Some (Inr (out, st')) \<Rightarrow> those (map (readNode 4 st') out)
    | _ \<Rightarrow> None) = Some [FIELD (FieldNode None ''p'' [] [] (Some [exQxy]))]"
  "selectionSetFromFieldSet [exFieldP] (Some exProduct) =
     Inr [FIELD (FieldNode None ''p'' [] [] (Some [exQxy]))]"
  "selectionSetFromFieldSet [exFieldP, exFieldP] (Some exProduct) =
     Inr [FIELD (FieldNode None ''p'' [] [] (Some [exQxy]))]"
  by code_simp+

text \<open>
  Where a node object is shared the two differ. In the second example store the fields
  read \<^verbatim>\<open>p1 { q { x } q { y } }\<close> and \<^verbatim>\<open>p2 { q { x } }\<close>, and the node \<^verbatim>\<open>q { x }\<close> of
  both is one object. Combining \<^verbatim>\<open>p1\<close> merges \<^verbatim>\<open>{ x y }\<close> into the selection set of
  that object; combining \<^verbatim>\<open>p2\<close> then reads it, and the code returns
  \<^verbatim>\<open>p2 { q { x y } }\<close>. On values, where nothing is shared, the result is
  \<^verbatim>\<open>p2 { q { x } }\<close>.
\<close>

lemma shared_node_read_after_write:
  "those (map (readNode 4 exSharedStore) (map fieldNodeRef [exFieldRefP1, exFieldRefP2])) =
     Some (map (\<lambda>f. FIELD (fieldNode f)) [exFieldP1, exFieldP2])"
  "(case selectionSetFromFieldSetRef 4 [exFieldRefP1, exFieldRefP2] (Some exProduct)
           exSharedStore of
      Some (Inr (out, st')) \<Rightarrow> those (map (readNode 4 st') out)
    | _ \<Rightarrow> None) =
     Some [FIELD (FieldNode None ''p1'' [] [] (Some [exQxy])),
           FIELD (FieldNode None ''p2'' [] [] (Some [exQxy]))]"
  "selectionSetFromFieldSet [exFieldP1, exFieldP2] (Some exProduct) =
     Inr [FIELD (FieldNode None ''p1'' [] [] (Some [exQxy])),
          FIELD (FieldNode None ''p2'' [] [] (Some [exQx]))]"
  by code_simp+

section \<open>Declaring types and response names\<close>

text \<open>
  Claim C1 says that two fields with one response name and one declaring type leave one
  field, whose nested selection is the union, by the same merge rule, of the nested
  selections of both. The fields \<^verbatim>\<open>p { small: picture(size: 1) }\<close> and
  \<^verbatim>\<open>p { large: picture(size: 2) }\<close> have the response name \<^verbatim>\<open>p\<close> and one declaring
  type, and \<^verbatim>\<open>p\<close> is of an object type. The one field that
  \<^verbatim>\<open>selectionSetFromFieldSet\<close> returns for them is \<^verbatim>\<open>p { small: picture(size: 1) }\<close>, on
  values and on the store of objects alike: the response name \<^verbatim>\<open>large\<close>, which is in
  the nested selection of the second field, is in no nested selection of the output. The
  fields of the field set are grouped by \<^verbatim>\<open>getResponseName\<close>, the alias first; their
  nested selections are merged by \<^verbatim>\<open>mergeSelectionsSetsInternal\<close>, which compares
  leaves by \<^verbatim>\<open>name.value\<close> (line 162).
\<close>

theorem nested_union_drops_response_name:
  "getResponseName (fieldNode exFieldPSmall) = getResponseName (fieldNode exFieldPLarge) \<and>
   parentType (scope exFieldPSmall) = parentType (scope exFieldPLarge) \<and>
   isCompositeType (getNamedType (fieldType (fieldDef exFieldPSmall))) \<and>
   selectionSet (fieldNode exFieldPSmall) = Some [exSmall] \<and>
   selectionSet (fieldNode exFieldPLarge) = Some [exLarge] \<and>
   nameValue exSmall = nameValue exLarge \<and>
   exLarge = FIELD (FieldNode (Some ''large'') ''picture'' [(''size'', ''2'')] [] None) \<and>
   getResponseName (FieldNode (Some ''large'') ''picture'' [(''size'', ''2'')] [] None) =
     ''large'' \<and>
   selectionSetFromFieldSet [exFieldPSmall, exFieldPLarge] (Some exProduct) =
     Inr [FIELD (FieldNode None ''p'' [] []
            (Some [FIELD (FieldNode (Some ''small'') ''picture'' [(''size'', ''1'')] [] None)]))] \<and>
   those (map (readNode 4 exAliasStore) (map fieldNodeRef [exFieldRefSmall, exFieldRefLarge])) =
     Some (map (\<lambda>f. FIELD (fieldNode f)) [exFieldPSmall, exFieldPLarge]) \<and>
   (case selectionSetFromFieldSetRef 4 [exFieldRefSmall, exFieldRefLarge] (Some exProduct)
           exAliasStore of
      Some (Inr (out, st')) \<Rightarrow> those (map (readNode 4 st') out)
    | _ \<Rightarrow> None) =
     Some [FIELD (FieldNode None ''p'' [] []
             (Some [FIELD (FieldNode (Some ''small'') ''picture'' [(''size'', ''1'')] [] None)]))]"
  by code_simp

text \<open>
  What the claim says of the fields of the field set themselves holds on values. When
  \<^verbatim>\<open>selectionSetFromFieldSet\<close> returns, its output is made of one group per declaring
  type, in order of first appearance, and the group of a declaring type holds exactly one
  field node for each response name of the fields of that type, in order of first
  appearance.
\<close>

lemma top_level_response_names:
  assumes "selectionSetFromFieldSet fieldSet parent = Inr out"
  shows "\<exists>groups.
     out = concat (map (\<lambda>(t, nodes). wrapInInlineFragmentIfNeeded (map FIELD nodes) t parent)
                    (zip (declaringTypes fieldSet) groups)) \<and>
     list_all2 (\<lambda>t nodes.
         map getResponseName nodes = responseNames (fieldsOfType fieldSet t) \<and>
         distinct (map getResponseName nodes) \<and>
         set (map getResponseName nodes) =
           (\<lambda>f. getResponseName (fieldNode f)) ` set (fieldsOfType fieldSet t))
       (declaringTypes fieldSet) groups"
proof -
  from assms obtain zs where
    z: "mapE (\<lambda>t. case combinedSelections (fieldsOfType fieldSet t) of
                        Inl e \<Rightarrow> Inl e
                      | Inr sels \<Rightarrow> Inr (wrapInInlineFragmentIfNeeded sels t parent))
             (declaringTypes fieldSet) = Inr zs"
    and out: "out = concat zs"
    by (auto simp: selectionSetFromFieldSet_closed split: sum.splits)
  from mapE_wrap [OF z] obtain gs where
    g: "list_all2 (\<lambda>t sels. combinedSelections (fieldsOfType fieldSet t) = Inr sels)
       (declaringTypes fieldSet) gs"
    and zs: "zs = map (\<lambda>(t, sels). wrapInInlineFragmentIfNeeded sels t parent)
       (zip (declaringTypes fieldSet) gs)"
    by blast
  from g have "list_all2 (\<lambda>t sels. \<exists>nodes. sels = map FIELD nodes \<and>
        map getResponseName nodes = responseNames (fieldsOfType fieldSet t))
      (declaringTypes fieldSet) gs"
    by (rule list_all2_mono) (auto dest: combinedSelections_nodes)
  from list_all2_image [OF this] obtain groups where
    gs: "gs = map (map FIELD) groups"
    and c: "list_all2 (\<lambda>t nodes. map getResponseName nodes = responseNames (fieldsOfType fieldSet t))
       (declaringTypes fieldSet) groups"
    by blast
  have 1: "out = concat (map (\<lambda>(t, nodes). wrapInInlineFragmentIfNeeded (map FIELD nodes) t parent)
                    (zip (declaringTypes fieldSet) groups))"
    unfolding out zs gs by (simp add: zip_map2 case_prod_unfold comp_def)
  from c have 2: "list_all2 (\<lambda>t nodes.
         map getResponseName nodes = responseNames (fieldsOfType fieldSet t) \<and>
         distinct (map getResponseName nodes) \<and>
         set (map getResponseName nodes) =
           (\<lambda>f. getResponseName (fieldNode f)) ` set (fieldsOfType fieldSet t))
       (declaringTypes fieldSet) groups"
    by (rule list_all2_mono) (simp add: responseNames_distinct responseNames_set)
  from 1 2 show ?thesis by blast
qed

text \<open>
  Without aliases in the nested selections the union is taken: of \<^verbatim>\<open>b { x }\<close>,
  \<^verbatim>\<open>a\<close> and \<^verbatim>\<open>b { y }\<close>, all on one type that is also the parent type, the output is
  \<^verbatim>\<open>[b { x y }, a]\<close>.
\<close>

lemma nested_selections_merged:
  "selectionSetFromFieldSet [exFieldB1, exFieldA, exFieldB2] (Some exProduct) =
     Inr [FIELD (FieldNode None ''b'' [] [] (Some [exX, exY])), exA]"
  by code_simp

section \<open>The order of a merged selection list\<close>

lemma mapE_Inr: "mapE f xs = Inr ys \<Longrightarrow> list_all2 (\<lambda>x y. f x = Inr y) xs ys"
  by (induction xs arbitrary: ys) (auto split: sum.splits)

lemma mapE_Inr_nth:
  assumes "mapE f xs = Inr ys"
  shows "length ys = length xs" and "i < length xs \<Longrightarrow> f (xs ! i) = Inr (ys ! i)"
  using mapE_Inr [OF assms] by (auto simp: list_all2_conv_all_nth)

lemma withSelections_isLeaf: "isLeaf (withSelections x merged) = isLeaf x"
  by (cases x) (auto simp: isLeaf_def split: option.splits)

lemma withSelections_groupName: "groupName (withSelections x merged) = groupName x"
  by (cases x rule: typeConditionNameValue.cases)
    (auto simp: groupName_def selectionKey_def split: option.splits)

lemma leafItems_leaves: "list_all isLeaf (leafItems xs)"
  using firstByKey_subset [of nameValue "filter isLeaf xs"]
  by (auto simp: leafItems_def list_all_iff)

lemma hd_members:
  "k \<in> set (groupKeys xs) \<Longrightarrow>
     hd (members xs k) \<in> set xs \<and> \<not> isLeaf (hd (members xs k)) \<and> groupName (hd (members xs k)) = k"
proof -
  assume "k \<in> set (groupKeys xs)"
  then have "members xs k \<noteq> []" by (simp add: members_empty_iff)
  then have "hd (members xs k) \<in> set (members xs k)" by simp
  then show ?thesis by (simp add: members_def)
qed

lemma mergeGroup_Inr:
  "k \<in> set (groupKeys xs) \<Longrightarrow> mergeGroup xs k = Inr g \<Longrightarrow> \<not> isLeaf g \<and> groupName g = k"
  using hd_members [of k xs]
  by (auto simp: mergeGroup_def withSelections_isLeaf withSelections_groupName split: sum.splits)

text \<open>
  Claim C2. Whenever the nested-selection merge returns, its result is two-phase: first
  the leaf items, one per name and in the order in which the names first appear in the
  input, then one branching node per group, in the order in which the groups' keys first
  appear in the input, however leaves and branching items were interleaved.
\<close>

theorem merge_two_phase_order:
  assumes "mergeSelectionsSetsInternal fieldNodes = Inr out"
  shows "\<exists>groups. out = firstByKey nameValue (filter isLeaf fieldNodes) @ groups \<and>
           list_all isLeaf (firstByKey nameValue (filter isLeaf fieldNodes)) \<and>
           list_all (\<lambda>g. \<not> isLeaf g) groups \<and>
           map groupName groups =
             firstByKey (\<lambda>k. k) (map groupName (filter (\<lambda>x. \<not> isLeaf x) fieldNodes))"
proof -
  from assms obtain groups where
    m: "mapE (mergeGroup fieldNodes) (groupKeys fieldNodes) = Inr groups"
    and out: "out = leafItems fieldNodes @ groups"
    by (subst (asm) merge_unfold) (auto split: if_splits sum.splits)
  have len: "length groups = length (groupKeys fieldNodes)"
    by (rule mapE_Inr_nth(1) [OF m])
  have g: "\<not> isLeaf (groups ! i) \<and> groupName (groups ! i) = groupKeys fieldNodes ! i"
    if "i < length (groupKeys fieldNodes)" for i
    using mergeGroup_Inr [OF _ mapE_Inr_nth(2) [OF m that]] that by simp
  have "list_all (\<lambda>g. \<not> isLeaf g) groups"
    using g len by (simp add: list_all_length)
  moreover have "map groupName groups = groupKeys fieldNodes"
    using g len by (auto intro: nth_equalityI)
  ultimately show ?thesis
    using out leafItems_leaves [of fieldNodes] by (auto simp: leafItems_def groupKeys_def)
qed

text \<open>
  On \<^verbatim>\<open>[a, b { x }, c]\<close> the merge returns \<^verbatim>\<open>[a, c, b { x }]\<close>.
\<close>

theorem merge_two_phase_order_witness:
  "mergeSelectionsSetsInternal [exA, exB, exC] = Inr [exA, exC, exB] \<and>
   (\<exists>groups. [exA, exC, exB] = firstByKey nameValue (filter isLeaf [exA, exB, exC]) @ groups \<and>
           list_all isLeaf (firstByKey nameValue (filter isLeaf [exA, exB, exC])) \<and>
           list_all (\<lambda>g. \<not> isLeaf g) groups \<and>
           map groupName groups =
             firstByKey (\<lambda>k. k) (map groupName (filter (\<lambda>x. \<not> isLeaf x) [exA, exB, exC])))"
proof -
  have e: "mergeSelectionsSetsInternal [exA, exB, exC] = Inr [exA, exC, exB]"
    by code_simp
  from e merge_two_phase_order [OF e] show ?thesis by blast
qed

text \<open>
  The two phases belong to the nested merge. The fields of a field set itself come out in
  the order in which their response names first appear: \<^verbatim>\<open>[a, b { x }, c]\<close> on one
  declaring type stays in this order.
\<close>

lemma top_level_keeps_request_order:
  "selectionSetFromFieldSet [exFieldA, exFieldB1, exFieldC] (Some exProduct) =
     Inr [exA, FIELD (FieldNode None ''b'' [] [] (Some [exX])), exC]"
  by code_simp

section \<open>Inline fragments\<close>

text \<open>
  Claim C3, as the code has it. When \<^verbatim>\<open>selectionSetFromFieldSet\<close> returns, the
  combined fields of each declaring type are emitted directly if a parent type is given
  and the declaring type is that object; otherwise, and so whenever no parent type is
  given, they are wrapped in one inline fragment whose type condition is the name of the
  declaring type.
\<close>

theorem selection_set_wrapping:
  assumes "selectionSetFromFieldSet fieldSet parent = Inr out"
  shows "\<exists>groups.
     list_all2 (\<lambda>t sels. combinedSelections (fieldsOfType fieldSet t) = Inr sels)
       (declaringTypes fieldSet) groups \<and>
     out = concat (map (\<lambda>(t, sels). if parent = Some t then sels
                                    else [INLINE_FRAGMENT (Some (typeName t)) [] sels])
                    (zip (declaringTypes fieldSet) groups))"
proof -
  from assms obtain zs where
    z: "mapE (\<lambda>t. case combinedSelections (fieldsOfType fieldSet t) of
                        Inl e \<Rightarrow> Inl e
                      | Inr sels \<Rightarrow> Inr (wrapInInlineFragmentIfNeeded sels t parent))
             (declaringTypes fieldSet) = Inr zs"
    and out: "out = concat zs"
    by (auto simp: selectionSetFromFieldSet_closed split: sum.splits)
  from mapE_wrap [OF z] obtain groups where
    g: "list_all2 (\<lambda>t sels. combinedSelections (fieldsOfType fieldSet t) = Inr sels)
       (declaringTypes fieldSet) groups"
    and zs: "zs = map (\<lambda>(t, sels). wrapInInlineFragmentIfNeeded sels t parent)
       (zip (declaringTypes fieldSet) groups)"
    by blast
  have "(\<lambda>(t, sels). wrapInInlineFragmentIfNeeded sels t parent) =
        (\<lambda>(t, sels). if parent = Some t then sels
                       else [INLINE_FRAGMENT (Some (typeName t)) [] sels])"
    by (auto simp: wrapInInlineFragmentIfNeeded_def fun_eq_iff)
  with g zs out show ?thesis by auto
qed

text \<open>
  With the first \<^verbatim>\<open>Product\<close> object as parent type, the field on it is emitted directly
  and the field on the second \<^verbatim>\<open>Product\<close> object is wrapped.
\<close>

theorem selection_set_wrapping_witness:
  "selectionSetFromFieldSet [exFieldA, exFieldC2] (Some exProduct) =
     Inr [exA, INLINE_FRAGMENT (Some ''Product'') [] [exC]] \<and>
   (\<exists>groups.
     list_all2 (\<lambda>t sels. combinedSelections (fieldsOfType [exFieldA, exFieldC2] t) = Inr sels)
       (declaringTypes [exFieldA, exFieldC2]) groups \<and>
     [exA, INLINE_FRAGMENT (Some ''Product'') [] [exC]] =
       concat (map (\<lambda>(t, sels). if Some exProduct = Some t then sels
                                    else [INLINE_FRAGMENT (Some (typeName t)) [] sels])
                    (zip (declaringTypes [exFieldA, exFieldC2]) groups)))"
proof -
  have e: "selectionSetFromFieldSet [exFieldA, exFieldC2] (Some exProduct) =
     Inr [exA, INLINE_FRAGMENT (Some ''Product'') [] [exC]]"
    by code_simp
  from e selection_set_wrapping [OF e] show ?thesis by blast
qed

text \<open>
  The claim as written, with direct emission when no parent type is given, fails: a single
  field without a parent type comes back inside an inline fragment.
\<close>

theorem no_parent_type_wraps:
  "selectionSetFromFieldSet [exFieldA] None = Inr [INLINE_FRAGMENT (Some ''Product'') [] [exA]] \<and>
   selectionSetFromFieldSet [exFieldA] None \<noteq> Inr [exA]"
  by code_simp

section \<open>The key of a leaf item\<close>

text \<open>
  Claim C4 says that leaf items are deduplicated by response name. The first loop
  compares \<^verbatim>\<open>name.value\<close> and never looks at the alias: of \<^verbatim>\<open>small: picture(size: 1)\<close>
  and \<^verbatim>\<open>large: picture(size: 2)\<close> only the first is left, and \<^verbatim>\<open>id: name\<close> and
  \<^verbatim>\<open>id: sku\<close>, which share a response name, are both kept.
\<close>

theorem leaf_alias_ignored:
  "mergeSelectionsSetsInternal [exSmall, exLarge] = Inr [exSmall] \<and>
   mergeSelectionsSetsInternal [exIdName, exIdSku] = Inr [exIdName, exIdSku]"
  by code_simp

section \<open>Mutation of the input\<close>

text \<open>
  Claim C5 says that no node reachable from an input field is changed. On the store, the
  field \<^verbatim>\<open>p { q { x } q { y } }\<close> reads as \<^verbatim>\<open>p { q { x y } q { y } }\<close> after
  \<^verbatim>\<open>selectionSetFromFieldSet\<close> has returned: the selection set object of the first
  \<^verbatim>\<open>q\<close>, which the clone shares, has received the merged selections.
\<close>

theorem input_node_mutated:
  "readNode 4 exStore (fieldNodeRef exFieldRef) =
     Some (FIELD (FieldNode None ''p'' [] [] (Some [exQx, exQy]))) \<and>
   (case selectionSetFromFieldSetRef 4 [exFieldRef] (Some exProduct) exStore of
      Some (Inr (out, st')) \<Rightarrow> readNode 4 st' (fieldNodeRef exFieldRef)
    | _ \<Rightarrow> None) =
     Some (FIELD (FieldNode None ''p'' [] [] (Some [exQxy, exQy])))"
  by code_simp

section \<open>Idempotence\<close>

text \<open>
  Claim C6. For every field set and every parent type, given or not, the selection set
  built from the field set concatenated with itself is the selection set built from the
  field set alone; where one of the two throws, so does the other.
\<close>

theorem selection_set_self_concatenation:
  "selectionSetFromFieldSet (fieldSet @ fieldSet) parent = selectionSetFromFieldSet fieldSet parent"
proof -
  have t: "declaringTypes (fieldSet @ fieldSet) = declaringTypes fieldSet"
    by (simp add: declaringTypes_def firstByKey_append_known)
  show ?thesis
    unfolding selectionSetFromFieldSet_closed t
    by (simp add: fieldsOfType_def combinedSelections_twice [simplified])
qed

section \<open>Root types\<close>

text \<open>
  Claim C7, as the tests have it. For a document with a schema declaration that is
  normalized without error, the output holds no schema declaration and no type
  definition with a name bound by the declaration, and for every type definition bound
  by the declaration it holds an extension of the default root type name of a binding of
  that type, with the annotations of the definition and with its fields, in order, except
  those whose return type is named like a dropped type.
\<close>

theorem root_types_become_extensions:
  assumes "schemaDeclaration doc = Some bindings" and "defaultRootOperationTypes doc = Inr out"
  shows "list_all (\<lambda>d. \<not> isSchemaDeclaration d) out \<and>
         list_all (\<lambda>d. case definedTypeName d of
                          Some n \<Rightarrow> n \<notin> set (boundTypeNames bindings)
                        | None \<Rightarrow> True) out \<and>
         (\<forall>op n anns fs.
            (op, n) \<in> set bindings \<and> ObjectTypeDefinition n anns fs \<in> set doc \<longrightarrow>
            (\<exists>op'. (op', n) \<in> set bindings \<and>
               ObjectTypeExtension (defaultRootName op') anns
                 (filter (\<lambda>f. returnTypeName f \<notin> set (droppedTypeNames bindings doc)) fs)
               \<in> set out))"
proof -
  let ?dropped = "droppedTypeNames bindings doc"
  note out = defaultRootOperationTypes_Inr [OF assms]
  have 1: "list_all (\<lambda>d. \<not> isSchemaDeclaration d) out"
    unfolding out list_all_iff set_map_filter
  proof clarify
    fix d' d assume "normalizeDefinition bindings ?dropped d = Some d'" "isSchemaDeclaration d'"
    then show False by (cases d) (auto split: option.splits if_splits)
  qed
  have 2: "list_all (\<lambda>d. case definedTypeName d of
                          Some n \<Rightarrow> n \<notin> set (boundTypeNames bindings)
                        | None \<Rightarrow> True) out"
    unfolding out list_all_iff set_map_filter
  proof clarify
    fix d' d assume "normalizeDefinition bindings ?dropped d = Some d'"
    then show "case definedTypeName d' of
                 Some n \<Rightarrow> n \<notin> set (boundTypeNames bindings) | None \<Rightarrow> True"
      by (cases d) (auto simp: rootNameOf_None split: option.splits if_splits)
  qed
  have 3: "\<exists>op'. (op', n) \<in> set bindings \<and>
               ObjectTypeExtension (defaultRootName op') anns
                 (filter (\<lambda>f. returnTypeName f \<notin> set ?dropped) fs) \<in> set out"
    if b: "(op, n) \<in> set bindings" and d: "ObjectTypeDefinition n anns fs \<in> set doc"
    for op n anns fs
  proof -
    from rootNameOf_bound [OF b] obtain op' where
      op': "(op', n) \<in> set bindings" "rootNameOf bindings n = Some (defaultRootName op')"
      by blast
    then have "normalizeDefinition bindings ?dropped (ObjectTypeDefinition n anns fs) =
      Some (ObjectTypeExtension (defaultRootName op') anns
        (filter (\<lambda>f. returnTypeName f \<notin> set ?dropped) fs))"
      by (simp add: keptFields_def)
    with d have "ObjectTypeExtension (defaultRootName op') anns
        (filter (\<lambda>f. returnTypeName f \<notin> set ?dropped) fs) \<in> set out"
      unfolding out set_map_filter by blast
    with op'(1) show ?thesis by blast
  qed
  from 1 2 3 show ?thesis by blast
qed

text \<open>
  The first test: \<^verbatim>\<open>RootQuery\<close> becomes \<^verbatim>\<open>extend type Query\<close> with its one field.
\<close>

theorem root_types_become_extensions_witness:
  "schemaDeclaration exRootTypes =
     Some [(QueryOperation, ''RootQuery''), (MutationOperation, ''RootMutation'')] \<and>
   defaultRootOperationTypes exRootTypes = Inr exRootTypesOut \<and>
   list_all (\<lambda>d. \<not> isSchemaDeclaration d) exRootTypesOut \<and>
   (\<exists>op'. (op', ''RootQuery'') \<in>
            set [(QueryOperation, ''RootQuery''), (MutationOperation, ''RootMutation'')] \<and>
      ObjectTypeExtension (defaultRootName op') []
        (filter (\<lambda>f. returnTypeName f \<notin>
            set (droppedTypeNames
                  [(QueryOperation, ''RootQuery''), (MutationOperation, ''RootMutation'')] exRootTypes))
          [plainField ''product'' ''Product'']) \<in> set exRootTypesOut)"
proof -
  let ?bs = "[(QueryOperation, ''RootQuery''), (MutationOperation, ''RootMutation'')]"
  have s: "schemaDeclaration exRootTypes = Some ?bs" by code_simp
  have e: "defaultRootOperationTypes exRootTypes = Inr exRootTypesOut" by code_simp
  have b: "(QueryOperation, ''RootQuery'') \<in> set ?bs" by simp
  have d: "ObjectTypeDefinition ''RootQuery'' [] [plainField ''product'' ''Product''] \<in> set exRootTypes"
    by (simp add: exRootTypes_def)
  from root_types_become_extensions [OF s e] b d s e show ?thesis by blast
qed

text \<open>
  The claim as written, with the field list carried over unchanged, fails on the third
  test: \<^verbatim>\<open>RootMutation\<close> has the fields \<^verbatim>\<open>keepThisField\<close> and \<^verbatim>\<open>removeThisField\<close>,
  the extension of \<^verbatim>\<open>Mutation\<close> only the first.
\<close>

theorem root_field_list_not_unchanged:
  "schemaDeclaration exInvalidField =
     Some [(QueryOperation, ''RootQuery''), (MutationOperation, ''RootMutation'')] \<and>
   ObjectTypeDefinition ''RootMutation'' []
     [plainField ''keepThisField'' ''String'', plainField ''removeThisField'' ''Query'']
     \<in> set exInvalidField \<and>
   defaultRootOperationTypes exInvalidField =
     Inr [ObjectTypeExtension ''Query'' [] [plainField ''product'' ''Product''],
          ObjectTypeExtension ''Mutation'' [] [plainField ''keepThisField'' ''String'']] \<and>
   ObjectTypeExtension ''Mutation'' []
     [plainField ''keepThisField'' ''String'', plainField ''removeThisField'' ''Query'']
     \<notin> set [ObjectTypeExtension ''Query'' [] [plainField ''product'' ''Product''],
              ObjectTypeExtension ''Mutation'' [] [plainField ''keepThisField'' ''String'']]"
  by code_simp

text \<open>
  Claim C8. For a document with a schema declaration that is normalized without error,
  where the dropped names are the default root type names that have a type definition in
  the document and are not bound by the declaration: no type definition of the output has
  a default root type name; the output has one definition for each definition of the
  input that is neither the schema declaration nor a type definition with a dropped
  name; and each of them has exactly the fields of its original whose own return type
  name is not dropped, whatever the fields of that return type refer to.
\<close>

theorem colliding_root_names_dropped:
  assumes "schemaDeclaration doc = Some bindings" and "defaultRootOperationTypes doc = Inr out"
  shows "list_all (\<lambda>d. case definedTypeName d of
                          Some n \<Rightarrow> n \<notin> set defaultRootNames
                        | None \<Rightarrow> True) out \<and>
         length out =
           length (filter (\<lambda>d. \<not> isSchemaDeclaration d \<and>
                     \<not> isDropped (droppedTypeNames bindings doc) d) doc) \<and>
         map fieldsOf out =
           map (\<lambda>d. filter (\<lambda>f. returnTypeName f \<notin> set (droppedTypeNames bindings doc))
                      (fieldsOf d))
             (filter (\<lambda>d. \<not> isSchemaDeclaration d \<and>
                \<not> isDropped (droppedTypeNames bindings doc) d) doc)"
proof -
  let ?dropped = "droppedTypeNames bindings doc"
  let ?norm = "normalizeDefinition bindings ?dropped"
  let ?kept = "\<lambda>d. \<not> isSchemaDeclaration d \<and> \<not> isDropped ?dropped d"
  note out = defaultRootOperationTypes_Inr [OF assms]
  have k: "(\<lambda>d. ?norm d \<noteq> None) = ?kept"
    by (simp add: normalizeDefinition_None fun_eq_iff)
  have o: "out = map (the \<circ> ?norm) (filter ?kept doc)"
    unfolding out map_filter_def k ..
  have 1: "list_all (\<lambda>d. case definedTypeName d of
                          Some n \<Rightarrow> n \<notin> set defaultRootNames
                        | None \<Rightarrow> True) out"
    unfolding out list_all_iff set_map_filter
  proof clarify
    fix d' d assume d: "d \<in> set doc" and n: "?norm d = Some d'"
    show "case definedTypeName d' of Some n \<Rightarrow> n \<notin> set defaultRootNames | None \<Rightarrow> True"
    proof (cases d)
      case (ObjectTypeDefinition n' anns fs)
      with d have "n' \<in> set (List.map_filter definedTypeName doc)"
        by (force simp: set_map_filter)
      with n ObjectTypeDefinition show ?thesis
        by (auto simp: rootNameOf_None droppedTypeNames_def split: option.splits if_splits)
    next
      case (ObjectTypeExtension n' anns fs)
      with n show ?thesis by auto
    next
      case (SchemaDeclaration bs)
      with n show ?thesis by simp
    qed
  qed
  have 2: "length out = length (filter ?kept doc)" unfolding o by simp
  have 3: "map fieldsOf out =
           map (\<lambda>d. filter (\<lambda>f. returnTypeName f \<notin> set ?dropped) (fieldsOf d)) (filter ?kept doc)"
    unfolding o map_map
  proof (rule map_cong [OF refl])
    fix d assume "d \<in> set (filter ?kept doc)"
    then have "?norm d \<noteq> None" by (simp add: normalizeDefinition_None)
    then obtain d' where "?norm d = Some d'" by auto
    from normalizeDefinition_fields [OF this] this
    show "(fieldsOf \<circ> (the \<circ> ?norm)) d =
          filter (\<lambda>f. returnTypeName f \<notin> set ?dropped) (fieldsOf d)"
      by (simp add: keptFields_def)
  qed
  from 1 2 3 show ?thesis by blast
qed

text \<open>
  In the example \<^verbatim>\<open>type Query\<close> is dropped, and with it \<^verbatim>\<open>RootQuery.q\<close> and
  \<^verbatim>\<open>A.q\<close>; \<^verbatim>\<open>B.a\<close>, which reaches \<^verbatim>\<open>Query\<close> only through \<^verbatim>\<open>A\<close>, stays.
\<close>

theorem colliding_root_names_dropped_witness:
  "schemaDeclaration exOneHop = Some [(QueryOperation, ''RootQuery'')] \<and>
   defaultRootOperationTypes exOneHop = Inr exOneHopOut \<and>
   droppedTypeNames [(QueryOperation, ''RootQuery'')] exOneHop = [''Query''] \<and>
   list_all (\<lambda>d. case definedTypeName d of
                          Some n \<Rightarrow> n \<notin> set defaultRootNames
                        | None \<Rightarrow> True) exOneHopOut \<and>
   length exOneHopOut =
     length (filter (\<lambda>d. \<not> isSchemaDeclaration d \<and>
               \<not> isDropped (droppedTypeNames [(QueryOperation, ''RootQuery'')] exOneHop) d) exOneHop) \<and>
   map fieldsOf exOneHopOut =
     map (\<lambda>d. filter (\<lambda>f. returnTypeName f \<notin>
                  set (droppedTypeNames [(QueryOperation, ''RootQuery'')] exOneHop)) (fieldsOf d))
       (filter (\<lambda>d. \<not> isSchemaDeclaration d \<and>
          \<not> isDropped (droppedTypeNames [(QueryOperation, ''RootQuery'')] exOneHop) d) exOneHop)"
proof -
  have s: "schemaDeclaration exOneHop = Some [(QueryOperation, ''RootQuery'')]" by code_simp
  have e: "defaultRootOperationTypes exOneHop = Inr exOneHopOut" by code_simp
  have d: "droppedTypeNames [(QueryOperation, ''RootQuery'')] exOneHop = [''Query'']" by code_simp
  from colliding_root_names_dropped [OF s e] s e d show ?thesis by blast
qed

section \<open>External fields\<close>

text \<open>
  Claim C9. For every document and service name, the stripped document has no field
  marked external; there are as many records as the document has fields marked external,
  one for each in document order, holding the field, the name of the type it was on and
  the service name; and the definitions of the document are all still there, in their
  order, each with its kind, name and annotations, whether or not fields are left on it,
  and each with exactly the fields of the original that are not marked external, in their
  order.
\<close>

theorem external_fields_stripped:
  "list_all (\<lambda>d. list_all (\<lambda>f. \<not> external f) (fieldsOf d))
     (fst (stripExternalFieldsFromTypeDefs doc s)) \<and>
   length (snd (stripExternalFieldsFromTypeDefs doc s)) =
     length (filter external (concat (map fieldsOf doc))) \<and>
   snd (stripExternalFieldsFromTypeDefs doc s) =
     concat (map (\<lambda>d. map (\<lambda>f. \<lparr>strippedField = f, parentTypeName = definitionName d,
                                  serviceName = s\<rparr>)
                         (filter external (fieldsOf d))) doc) \<and>
   map withoutFields (fst (stripExternalFieldsFromTypeDefs doc s)) = map withoutFields doc \<and>
   map fieldsOf (fst (stripExternalFieldsFromTypeDefs doc s)) =
     map (\<lambda>d. filter (\<lambda>f. \<not> external f) (fieldsOf d)) doc"
proof -
  have 1: "list_all (\<lambda>d. list_all (\<lambda>f. \<not> external f) (fieldsOf d))
     (fst (stripExternalFieldsFromTypeDefs doc s))"
    by (simp add: stripExternalFieldsFromTypeDefs_def list_all_iff stripDefinition_fields)
  have 3: "snd (stripExternalFieldsFromTypeDefs doc s) =
     concat (map (\<lambda>d. map (\<lambda>f. \<lparr>strippedField = f, parentTypeName = definitionName d,
                                  serviceName = s\<rparr>)
                         (filter external (fieldsOf d))) doc)"
  proof -
    have "strippedOf s =
      (\<lambda>d. map (\<lambda>f. \<lparr>strippedField = f, parentTypeName = definitionName d, serviceName = s\<rparr>)
             (filter external (fieldsOf d)))"
      by (rule ext) (rule strippedOf_eq)
    then show ?thesis by (simp add: stripExternalFieldsFromTypeDefs_def)
  qed
  have 2: "length (snd (stripExternalFieldsFromTypeDefs doc s)) =
     length (filter external (concat (map fieldsOf doc)))"
    unfolding 3 by (induction doc) auto
  have 4: "map withoutFields (fst (stripExternalFieldsFromTypeDefs doc s)) = map withoutFields doc"
    by (simp add: stripExternalFieldsFromTypeDefs_def stripDefinition_head)
  have 5: "map fieldsOf (fst (stripExternalFieldsFromTypeDefs doc s)) =
     map (\<lambda>d. filter (\<lambda>f. \<not> external f) (fieldsOf d)) doc"
    by (simp add: stripExternalFieldsFromTypeDefs_def stripDefinition_fields)
  from 1 2 3 4 5 show ?thesis by blast
qed

text \<open>The test of lines 129 to 170.\<close>

theorem external_fields_stripped_example:
  "stripExternalFieldsFromTypeDefs exExternal ''serviceA'' =
     ([ObjectTypeDefinition ''Query'' [] [plainField ''product'' ''Product''],
       ObjectTypeExtension ''Product'' [''key(fields: sku)''] [],
       ObjectTypeDefinition ''Mutation'' [] [plainField ''updateProduct'' ''Product'']],
      [\<lparr>strippedField = \<lparr>definedName = ''sku'', returnTypeName = ''String'', external = True\<rparr>,
        parentTypeName = ''Product'', serviceName = ''serviceA''\<rparr>]) \<and>
   length (snd (stripExternalFieldsFromTypeDefs exExternal ''serviceA'')) =
     length (filter external (concat (map fieldsOf exExternal))) \<and>
   map fieldsOf (fst (stripExternalFieldsFromTypeDefs exExternal ''serviceA'')) =
     map (\<lambda>d. filter (\<lambda>f. \<not> external f) (fieldsOf d)) exExternal"
proof -
  have "stripExternalFieldsFromTypeDefs exExternal ''serviceA'' =
     ([ObjectTypeDefinition ''Query'' [] [plainField ''product'' ''Product''],
       ObjectTypeExtension ''Product'' [''key(fields: sku)''] [],
       ObjectTypeDefinition ''Mutation'' [] [plainField ''updateProduct'' ''Product'']],
      [\<lparr>strippedField = \<lparr>definedName = ''sku'', returnTypeName = ''String'', external = True\<rparr>,
        parentTypeName = ''Product'', serviceName = ''serviceA''\<rparr>])"
    by code_simp
  with external_fields_stripped [of exExternal "''serviceA''"] show ?thesis by blast
qed

section \<open>Identity of type objects\<close>

text \<open>
  Claim C10. The fields of a field set are grouped by the type object of their scope: the
  groups are the type objects in order of first appearance, each with all the fields whose
  scope holds that very object, in their order. The example has three type objects that
  are all named \<^verbatim>\<open>Product\<close>; the fields \<^verbatim>\<open>a\<close> and \<^verbatim>\<open>c\<close> are on the first, a second
  field \<^verbatim>\<open>c\<close> is on the second. Of \<^verbatim>\<open>a\<close> on the first, \<^verbatim>\<open>c\<close> on the second and
  \<^verbatim>\<open>c\<close> on the first, in this order, the two fields on the first object form one group
  although they are not neighbours, and the field on the second object forms a group of
  its own although the name of its type is the same. With the third object as parent type
  every group is wrapped, so the output has two inline fragments with the one name, the
  first holding \<^verbatim>\<open>a\<close> and \<^verbatim>\<open>c\<close>; with the first object as parent type its group is
  emitted directly.
\<close>

theorem type_identity_groups:
  "groupByParentType fieldSet =
     map (\<lambda>t. (t, fieldsOfType fieldSet t)) (declaringTypes fieldSet) \<and>
   parentType (scope exFieldA) = exProduct \<and> parentType (scope exFieldC) = exProduct \<and>
   parentType (scope exFieldC2) = exProduct2 \<and>
   exProduct \<noteq> exProduct2 \<and> exProduct3 \<noteq> exProduct \<and> exProduct3 \<noteq> exProduct2 \<and>
   typeName exProduct = typeName exProduct2 \<and> typeName exProduct3 = typeName exProduct \<and>
   groupByParentType [exFieldA, exFieldC2, exFieldC] =
     [(exProduct, [exFieldA, exFieldC]), (exProduct2, [exFieldC2])] \<and>
   selectionSetFromFieldSet [exFieldA, exFieldC2, exFieldC] (Some exProduct3) =
     Inr [INLINE_FRAGMENT (Some ''Product'') [] [exA, exC],
          INLINE_FRAGMENT (Some ''Product'') [] [exC]] \<and>
   selectionSetFromFieldSet [exFieldA, exFieldC] (Some exProduct3) =
     Inr [INLINE_FRAGMENT (Some ''Product'') [] [exA, exC]] \<and>
   selectionSetFromFieldSet [exFieldA, exFieldC2] (Some exProduct3) =
     Inr [INLINE_FRAGMENT (Some ''Product'') [] [exA],
          INLINE_FRAGMENT (Some ''Product'') [] [exC]] \<and>
   selectionSetFromFieldSet [exFieldA, exFieldC2, exFieldC] (Some exProduct) =
     Inr [exA, exC, INLINE_FRAGMENT (Some ''Product'') [] [exC]] \<and>
   selectionSetFromFieldSet [exFieldA, exFieldC] (Some exProduct) = Inr [exA, exC]"
proof -
  have 1: "groupByParentType fieldSet =
     map (\<lambda>t. (t, fieldsOfType fieldSet t)) (declaringTypes fieldSet)"
    by (simp add: groupByParentType_def groupBy_closed fieldsOfType_def declaringTypes_def)
  have 2: "parentType (scope exFieldA) = exProduct \<and> parentType (scope exFieldC) = exProduct \<and>
   parentType (scope exFieldC2) = exProduct2 \<and>
   exProduct \<noteq> exProduct2 \<and> exProduct3 \<noteq> exProduct \<and> exProduct3 \<noteq> exProduct2 \<and>
   typeName exProduct = typeName exProduct2 \<and> typeName exProduct3 = typeName exProduct"
    by code_simp
  have 3: "groupByParentType [exFieldA, exFieldC2, exFieldC] =
     [(exProduct, [exFieldA, exFieldC]), (exProduct2, [exFieldC2])]"
    by code_simp
  have 4: "selectionSetFromFieldSet [exFieldA, exFieldC2, exFieldC] (Some exProduct3) =
     Inr [INLINE_FRAGMENT (Some ''Product'') [] [exA, exC],
          INLINE_FRAGMENT (Some ''Product'') [] [exC]]"
    by code_simp
  have 5: "selectionSetFromFieldSet [exFieldA, exFieldC] (Some exProduct3) =
     Inr [INLINE_FRAGMENT (Some ''Product'') [] [exA, exC]]"
    by code_simp
  have 6: "selectionSetFromFieldSet [exFieldA, exFieldC2] (Some exProduct3) =
     Inr [INLINE_FRAGMENT (Some ''Product'') [] [exA],
          INLINE_FRAGMENT (Some ''Product'') [] [exC]]"
    by code_simp
  have 7: "selectionSetFromFieldSet [exFieldA, exFieldC2, exFieldC] (Some exProduct) =
     Inr [exA, exC, INLINE_FRAGMENT (Some ''Product'') [] [exC]]"
    by code_simp
  have 8: "selectionSetFromFieldSet [exFieldA, exFieldC] (Some exProduct) = Inr [exA, exC]"
    by code_simp
  from 1 2 3 4 5 6 7 8 show ?thesis by blast
qed

text \<open>
  The names play no part: whenever the two fields of a field set are on two type objects
  and the parent type is neither of them, the output is two inline fragments; and
  whenever they are on one type object that is not the parent type, the output is one
  inline fragment with the fields of both.
\<close>

lemma distinct_type_objects_two_fragments:
  assumes "selectionSetFromFieldSet [f1, f2] parent = Inr out"
    and "parentType (scope f1) \<noteq> parentType (scope f2)"
    and "parent \<noteq> Some (parentType (scope f1))"
    and "parent \<noteq> Some (parentType (scope f2))"
  shows "\<exists>sels1 sels2.
           combinedSelections [f1] = Inr sels1 \<and> combinedSelections [f2] = Inr sels2 \<and>
           out = [INLINE_FRAGMENT (Some (typeName (parentType (scope f1)))) [] sels1,
                  INLINE_FRAGMENT (Some (typeName (parentType (scope f2)))) [] sels2]"
proof -
  have t: "declaringTypes [f1, f2] = [parentType (scope f1), parentType (scope f2)]"
    using assms(2) by (simp add: declaringTypes_def)
  have 1: "fieldsOfType [f1, f2] (parentType (scope f1)) = [f1]"
    using assms(2) by (simp add: fieldsOfType_def)
  have 2: "fieldsOfType [f1, f2] (parentType (scope f2)) = [f2]"
    using assms(2) by (simp add: fieldsOfType_def)
  from assms(1,3,4) show ?thesis
    unfolding selectionSetFromFieldSet_closed t
    by (auto simp: 1 2 wrapInInlineFragmentIfNeeded_def split: sum.splits)
qed

lemma same_type_object_one_fragment:
  assumes "selectionSetFromFieldSet [f1, f2] parent = Inr out"
    and "parentType (scope f1) = parentType (scope f2)"
    and "parent \<noteq> Some (parentType (scope f1))"
  shows "\<exists>sels.
           combinedSelections [f1, f2] = Inr sels \<and>
           out = [INLINE_FRAGMENT (Some (typeName (parentType (scope f1)))) [] sels]"
proof -
  have t: "declaringTypes [f1, f2] = [parentType (scope f1)]"
    using assms(2) by (simp add: declaringTypes_def)
  have 1: "fieldsOfType [f1, f2] (parentType (scope f1)) = [f1, f2]"
    using assms(2) by (simp add: fieldsOfType_def)
  from assms(1,3) show ?thesis
    unfolding selectionSetFromFieldSet_closed t
    by (auto simp: 1 wrapInInlineFragmentIfNeeded_def split: sum.splits)
qed

end
